theory Spec2Isabelle
  imports Complex_Main "HOL-Library.Signed_Division"
begin

section \<open>The IR the rewrite patterns of ExpandOps.cpp work on\<close>

text \<open>
  The file \<^verbatim>\<open>mlir/lib/Dialect/Arithmetic/Transforms/ExpandOps.cpp\<close> holds five rewrite
  patterns (two of them templates, instantiated twice and four times), the function that
  registers them and the pass that runs them. A pattern reads the two operands of the op it
  matched, creates new ops through the \<^verbatim>\<open>PatternRewriter\<close> and names the value that
  replaces the matched op.
\<close>

text \<open>
  Modelled from the spec: types, values and ops are the host framework's (section 3 of the
  spec) and only their use is in the source. A type is an integer of some width, a float of
  some format or a vector of one of them; a value is a block argument or the result of an
  op; an op has a name, at most one attribute, operands and a result type. Source locations
  carry no meaning and are left out.
\<close>

datatype fltSemantics = IEEEhalf | BFloat | IEEEsingle | IEEEdouble | x87DoubleExtended | IEEEquad

datatype Type =
    IntegerType nat
  | FloatType fltSemantics
  | VectorType "nat list" Type

fun getElementTypeOrSelf :: "Type \<Rightarrow> Type" where
  "getElementTypeOrSelf (VectorType shape t) = t"
| "getElementTypeOrSelf t = t"

text \<open>
  \<^verbatim>\<open>Type::cast<FloatType>()\<close> asserts that the type is a float type and
  \<^verbatim>\<open>Type::dyn_cast<VectorType>()\<close> yields null when the type is no vector: both are
  partial, with \<open>None\<close> for the assertion failure and for null.
\<close>

fun cast_FloatType :: "Type \<Rightarrow> fltSemantics option" where
  "cast_FloatType (FloatType sem) = Some sem"
| "cast_FloatType _ = None"

fun dyn_cast_VectorType :: "Type \<Rightarrow> Type option" where
  "dyn_cast_VectorType (VectorType shape t) = Some (VectorType shape t)"
| "dyn_cast_VectorType _ = None"

text \<open>
  Modelled from the spec: \<^verbatim>\<open>APFloat\<close> is the host's. A float value of format
  \<open>sem\<close> is a finite number \<open>(-1)\<^sup>s * m * 2\<^sup>e\<close> (a zero has
  \<open>m = 0\<close> and keeps its sign), an infinity, or a NaN with its sign, its quiet flag and its
  payload. \<open>getQNaN sem\<close> is the quiet NaN of the format, positive and with an
  empty payload.
\<close>

datatype APFloat =
    Finite fltSemantics bool nat int
  | Infinity fltSemantics bool
  | NaN fltSemantics bool bool nat

fun getSemantics :: "APFloat \<Rightarrow> fltSemantics" where
  "getSemantics (Finite sem s m e) = sem"
| "getSemantics (Infinity sem s) = sem"
| "getSemantics (NaN sem s q p) = sem"

fun isNaN :: "APFloat \<Rightarrow> bool" where
  "isNaN (NaN sem s q p) = True"
| "isNaN _ = False"

fun isQuietNaN :: "APFloat \<Rightarrow> bool" where
  "isQuietNaN (NaN sem s q p) = q"
| "isQuietNaN _ = False"

definition getQNaN :: "fltSemantics \<Rightarrow> APFloat" where
  "getQNaN sem = NaN sem False True 0"

datatype CmpIPredicate = CmpI_eq | CmpI_ne | CmpI_slt | CmpI_sle | CmpI_sgt | CmpI_sge
  | CmpI_ult | CmpI_ule | CmpI_ugt | CmpI_uge

datatype CmpFPredicate = OGT | OLT | UNO

datatype Attribute =
    NoAttr
  | IntegerAttr Type int
  | FloatAttr Type APFloat
  | CmpIPredicateAttr CmpIPredicate
  | CmpFPredicateAttr CmpFPredicate

datatype Dialect = ArithmeticDialect | StandardOpsDialect

datatype OpName =
    ConstantOp | AddIOp | SubIOp | MulIOp | DivSIOp | DivUIOp | AndIOp | OrIOp
  | CmpIOp | CmpFOp
  | CeilDivSIOp | CeilDivUIOp | FloorDivSIOp
  | MaxFOp | MaxSIOp | MaxUIOp | MinFOp | MinSIOp | MinUIOp
  | SelectOp | SplatOp

fun getDialect :: "OpName \<Rightarrow> Dialect" where
  "getDialect SelectOp = StandardOpsDialect"
| "getDialect SplatOp = StandardOpsDialect"
| "getDialect n = ArithmeticDialect"

datatype Value =
    BlockArgument nat Type
  | OpResult OpName Attribute "Value list" Type

fun getType :: "Value \<Rightarrow> Type" where
  "getType (BlockArgument i t) = t"
| "getType (OpResult n attr ops t) = t"

text \<open>
  Every op the patterns match is a binary op: \<open>getLhs\<close> and \<open>getRhs\<close> are its two
  operands. They are defined on ops with two operands only.
\<close>

fun getLhs :: "Value \<Rightarrow> Value" where
  "getLhs (OpResult n attr [a, b] t) = a"

fun getRhs :: "Value \<Rightarrow> Value" where
  "getRhs (OpResult n attr [a, b] t) = b"

fun getOpName :: "Value \<Rightarrow> OpName option" where
  "getOpName (BlockArgument i t) = None"
| "getOpName (OpResult n attr ops t) = Some n"

subsection \<open>The pattern rewriter\<close>

text \<open>
  Modelled from the spec: the rewriter and its builders are the host's. The rewriter is the
  state the patterns act on: \<open>created\<close> lists the ops made by
  \<^verbatim>\<open>rewriter.create\<close>, in order, and \<open>replaced\<close> the ops handed to
  \<^verbatim>\<open>rewriter.replaceOp\<close> with their replacement values. Each builder call takes the
  rewriter and returns the new value with the rewriter updated. Section 4.7 of the spec
  gives the builders' types: an integer constant has the integer type, scalar or vector, it
  is asked for; add, sub, the divisions and the bitwise ops take two integers and return
  their type; the comparisons return i1, of the operands' shape; select returns the type of
  its second operand; the broadcast returns the vector type it is given.
  \<open>create_binary n\<close> stands for \<^verbatim>\<open>rewriter.create<n>\<close> of the binary integer ops.
\<close>

datatype LogicalResult = success | failure

record PatternRewriter =
  created :: "Value list"
  replaced :: "(Value \<times> Value list) list"

definition create :: "OpName \<Rightarrow> Attribute \<Rightarrow> Value list \<Rightarrow> Type \<Rightarrow> PatternRewriter
    \<Rightarrow> Value \<times> PatternRewriter" where
  "create n attr ops t rw =
     (let v = OpResult n attr ops t in (v, rw\<lparr>created := created rw @ [v]\<rparr>))"

definition replaceOp :: "Value \<Rightarrow> Value list \<Rightarrow> PatternRewriter \<Rightarrow> PatternRewriter" where
  "replaceOp op vs rw = rw\<lparr>replaced := replaced rw @ [(op, vs)]\<rparr>"

definition getIntegerAttr :: "Type \<Rightarrow> int \<Rightarrow> Attribute" where
  "getIntegerAttr t k = IntegerAttr t k"

fun getI1SameShape :: "Type \<Rightarrow> Type" where
  "getI1SameShape (VectorType shape t) = VectorType shape (IntegerType 1)"
| "getI1SameShape t = IntegerType 1"

fun attrType :: "Attribute \<Rightarrow> Type" where
  "attrType (IntegerAttr t k) = t"
| "attrType (FloatAttr t f) = t"
| "attrType a = IntegerType 0"

definition create_ConstantOp :: "Attribute \<Rightarrow> PatternRewriter \<Rightarrow> Value \<times> PatternRewriter" where
  "create_ConstantOp attr rw = create ConstantOp attr [] (attrType attr) rw"

definition create_ConstantFloatOp :: "APFloat \<Rightarrow> Type \<Rightarrow> PatternRewriter
    \<Rightarrow> Value \<times> PatternRewriter" where
  "create_ConstantFloatOp f t rw = create ConstantOp (FloatAttr t f) [] t rw"

definition create_CmpIOp :: "CmpIPredicate \<Rightarrow> Value \<Rightarrow> Value \<Rightarrow> PatternRewriter
    \<Rightarrow> Value \<times> PatternRewriter" where
  "create_CmpIOp p a b rw =
     create CmpIOp (CmpIPredicateAttr p) [a, b] (getI1SameShape (getType a)) rw"

definition create_CmpFOp :: "CmpFPredicate \<Rightarrow> Value \<Rightarrow> Value \<Rightarrow> PatternRewriter
    \<Rightarrow> Value \<times> PatternRewriter" where
  "create_CmpFOp p a b rw =
     create CmpFOp (CmpFPredicateAttr p) [a, b] (getI1SameShape (getType a)) rw"

definition create_binary :: "OpName \<Rightarrow> Value \<Rightarrow> Value \<Rightarrow> PatternRewriter
    \<Rightarrow> Value \<times> PatternRewriter" where
  "create_binary n a b rw = create n NoAttr [a, b] (getType a) rw"

definition create_SelectOp :: "Value \<Rightarrow> Value \<Rightarrow> Value \<Rightarrow> PatternRewriter
    \<Rightarrow> Value \<times> PatternRewriter" where
  "create_SelectOp c t f rw = create SelectOp NoAttr [c, t, f] (getType t) rw"

definition create_SplatOp :: "Type \<Rightarrow> Value \<Rightarrow> PatternRewriter \<Rightarrow> Value \<times> PatternRewriter" where
  "create_SplatOp vt v rw = create SplatOp NoAttr [v] vt rw"

definition replaceOpWithNewOp_SelectOp :: "Value \<Rightarrow> Value \<Rightarrow> Value \<Rightarrow> Value
    \<Rightarrow> PatternRewriter \<Rightarrow> PatternRewriter" where
  "replaceOpWithNewOp_SelectOp op c t f rw =
     (let (newOp, rw) = create_SelectOp c t f rw in replaceOp op [newOp] rw)"

section \<open>The rewrite patterns\<close>

text \<open>
  Each pattern is the body of its \<^verbatim>\<open>matchAndRewrite\<close>, one binding for each statement
  of the source. The result is \<open>None\<close> when an assertion of the source fails (only the
  \<^verbatim>\<open>cast<FloatType>\<close> of the float pattern can), and else the \<^verbatim>\<open>LogicalResult\<close>
  with the rewriter as the pattern leaves it.
\<close>

definition CeilDivUIOpConverter :: "Value \<Rightarrow> PatternRewriter
    \<Rightarrow> (LogicalResult \<times> PatternRewriter) option" where
  "CeilDivUIOpConverter op rw =
     (let a = getLhs op;
          b = getRhs op;
          (zero, rw) = create_ConstantOp (getIntegerAttr (getType a) 0) rw;
          (compare, rw) = create_CmpIOp CmpI_eq a zero rw;
          (one, rw) = create_ConstantOp (getIntegerAttr (getType a) 1) rw;
          (minusOne, rw) = create_binary SubIOp a one rw;
          (quotient, rw) = create_binary DivUIOp minusOne b rw;
          (plusOne, rw) = create_binary AddIOp quotient one rw;
          (res, rw) = create_SelectOp compare zero plusOne rw;
          rw = replaceOp op [res] rw
      in Some (success, rw))"

definition CeilDivSIOpConverter :: "Value \<Rightarrow> PatternRewriter
    \<Rightarrow> (LogicalResult \<times> PatternRewriter) option" where
  "CeilDivSIOpConverter op rw =
     (let signedCeilDivIOp = op;
          type = getType signedCeilDivIOp;
          a = getLhs signedCeilDivIOp;
          b = getRhs signedCeilDivIOp;
          (plusOne, rw) = create_ConstantOp (getIntegerAttr type 1) rw;
          (zero, rw) = create_ConstantOp (getIntegerAttr type 0) rw;
          (minusOne, rw) = create_ConstantOp (getIntegerAttr type (- 1)) rw;
          (compare, rw) = create_CmpIOp CmpI_sgt b zero rw;
          (x, rw) = create_SelectOp compare minusOne plusOne rw;
          (xPlusA, rw) = create_binary AddIOp x a rw;
          (xPlusADivB, rw) = create_binary DivSIOp xPlusA b rw;
          (posRes, rw) = create_binary AddIOp plusOne xPlusADivB rw;
          (minusA, rw) = create_binary SubIOp zero a rw;
          (minusADivB, rw) = create_binary DivSIOp minusA b rw;
          (negRes, rw) = create_binary SubIOp zero minusADivB rw;
          (aNeg, rw) = create_CmpIOp CmpI_slt a zero rw;
          (aPos, rw) = create_CmpIOp CmpI_sgt a zero rw;
          (bNeg, rw) = create_CmpIOp CmpI_slt b zero rw;
          (bPos, rw) = create_CmpIOp CmpI_sgt b zero rw;
          (firstTerm, rw) = create_binary AndIOp aNeg bNeg rw;
          (secondTerm, rw) = create_binary AndIOp aPos bPos rw;
          (compareRes, rw) = create_binary OrIOp firstTerm secondTerm rw;
          (res, rw) = create_SelectOp compareRes posRes negRes rw;
          rw = replaceOp op [res] rw
      in Some (success, rw))"

definition FloorDivSIOpConverter :: "Value \<Rightarrow> PatternRewriter
    \<Rightarrow> (LogicalResult \<times> PatternRewriter) option" where
  "FloorDivSIOpConverter op rw =
     (let signedFloorDivIOp = op;
          type = getType signedFloorDivIOp;
          a = getLhs signedFloorDivIOp;
          b = getRhs signedFloorDivIOp;
          (plusOne, rw) = create_ConstantOp (getIntegerAttr type 1) rw;
          (zero, rw) = create_ConstantOp (getIntegerAttr type 0) rw;
          (minusOne, rw) = create_ConstantOp (getIntegerAttr type (- 1)) rw;
          (compare, rw) = create_CmpIOp CmpI_slt b zero rw;
          (x, rw) = create_SelectOp compare plusOne minusOne rw;
          (xMinusA, rw) = create_binary SubIOp x a rw;
          (xMinusADivB, rw) = create_binary DivSIOp xMinusA b rw;
          (negRes, rw) = create_binary SubIOp minusOne xMinusADivB rw;
          (posRes, rw) = create_binary DivSIOp a b rw;
          (aNeg, rw) = create_CmpIOp CmpI_slt a zero rw;
          (aPos, rw) = create_CmpIOp CmpI_sgt a zero rw;
          (bNeg, rw) = create_CmpIOp CmpI_slt b zero rw;
          (bPos, rw) = create_CmpIOp CmpI_sgt b zero rw;
          (firstTerm, rw) = create_binary AndIOp aNeg bPos rw;
          (secondTerm, rw) = create_binary AndIOp aPos bNeg rw;
          (compareRes, rw) = create_binary OrIOp firstTerm secondTerm rw;
          (res, rw) = create_SelectOp compareRes negRes posRes rw;
          rw = replaceOp op [res] rw
      in Some (success, rw))"

definition MaxMinFOpConverter :: "CmpFPredicate \<Rightarrow> Value \<Rightarrow> PatternRewriter
    \<Rightarrow> (LogicalResult \<times> PatternRewriter) option" where
  "MaxMinFOpConverter pred op rw =
     (let lhs = getLhs op;
          rhs = getRhs op;
          (cmp, rw) = create_CmpFOp pred lhs rhs rw;
          (select, rw) = create_SelectOp cmp lhs rhs rw
      in case cast_FloatType (getElementTypeOrSelf (getType lhs)) of
           None \<Rightarrow> None
         | Some sem \<Rightarrow>
            (let floatType = FloatType sem;
                 (isNaN, rw) = create_CmpFOp UNO lhs rhs rw;
                 (nan, rw) = create_ConstantFloatOp (getQNaN sem) floatType rw;
                 (nan, rw) = (case dyn_cast_VectorType (getType lhs) of
                                Some vectorType \<Rightarrow> create_SplatOp vectorType nan rw
                              | None \<Rightarrow> (nan, rw));
                 rw = replaceOpWithNewOp_SelectOp op isNaN nan select rw
             in Some (success, rw)))"

definition MaxMinIOpConverter :: "CmpIPredicate \<Rightarrow> Value \<Rightarrow> PatternRewriter
    \<Rightarrow> (LogicalResult \<times> PatternRewriter) option" where
  "MaxMinIOpConverter pred op rw =
     (let lhs = getLhs op;
          rhs = getRhs op;
          (cmp, rw) = create_CmpIOp pred lhs rhs rw;
          rw = replaceOpWithNewOp_SelectOp op cmp lhs rhs rw
      in Some (success, rw))"

definition emptyRewriter :: PatternRewriter where
  "emptyRewriter = \<lparr>created = [], replaced = []\<rparr>"

section \<open>What the emitted ops compute\<close>

text \<open>
  Modelled from the spec: the meaning of the primitive ops is the host's; the source only
  names them. An integer of width \<open>w\<close> is stored as its bit pattern \<open>0 \<le> n < 2 ^ w\<close>, and
  \<open>signedOf w n\<close> reads the pattern as two's complement. Add and sub wrap around; unsigned
  divide divides the patterns; signed divide truncates towards zero (\<open>sdiv\<close>). Both divides
  are undefined (\<open>None\<close>) for divisor zero, and the signed divide is undefined as well for
  the smallest integer divided by \<open>-1\<close>, where it overflows: the spec leaves both to the
  underlying divide and promises nothing there. Compare yields an i1, select picks its
  second operand when the i1 is set, and every op works lane by lane on vectors.
\<close>

unbundle bit_operations_syntax

datatype Scalar = IntVal nat int | FloatVal APFloat

datatype RtVal = ScalarVal Scalar | VectorVal "Scalar list"

text \<open>
  \<open>APInt w k\<close> is the integer of width \<open>w\<close> with the bit pattern of \<open>k\<close>, which may be
  given signed or unsigned; \<open>sext w k\<close> is its signed reading and \<open>i1 c\<close> the one-bit
  integer of a truth value.
\<close>

definition APInt :: "nat \<Rightarrow> int \<Rightarrow> Scalar" where
  "APInt w k = IntVal w (k mod 2 ^ w)"

definition signedOf :: "nat \<Rightarrow> int \<Rightarrow> int" where
  "signedOf w n = (if n < 2 ^ (w - 1) then n else n - 2 ^ w)"

definition sext :: "nat \<Rightarrow> int \<Rightarrow> int" where
  "sext w k = signedOf w (k mod 2 ^ w)"

fun getSExtValue :: "RtVal \<Rightarrow> int option" where
  "getSExtValue (ScalarVal (IntVal w n)) = Some (signedOf w n)"
| "getSExtValue v = None"

fun getZExtValue :: "RtVal \<Rightarrow> int option" where
  "getZExtValue (ScalarVal (IntVal w n)) = Some n"
| "getZExtValue v = None"

definition intBinary :: "OpName \<Rightarrow> nat \<Rightarrow> int \<Rightarrow> int \<Rightarrow> int option" where
  "intBinary n w x y =
     (if n = AddIOp then Some ((x + y) mod 2 ^ w)
      else if n = SubIOp then Some ((x - y) mod 2 ^ w)
      else if n = MulIOp then Some ((x * y) mod 2 ^ w)
      else if n = DivUIOp then (if y = 0 then None else Some (x div y))
      else if n = DivSIOp then
        (if y = 0 then None
         else if signedOf w x = - (2 ^ (w - 1)) \<and> signedOf w y = - 1 then None
         else Some ((signedOf w x sdiv signedOf w y) mod 2 ^ w))
      else if n = AndIOp then Some (x AND y)
      else if n = OrIOp then Some (x OR y)
      else None)"

fun scalarBinary :: "OpName \<Rightarrow> Scalar \<Rightarrow> Scalar \<Rightarrow> Scalar option" where
  "scalarBinary n (IntVal w x) (IntVal w' y) =
     (if w = w' then map_option (IntVal w) (intBinary n w x y) else None)"
| "scalarBinary n x y = None"

fun applyCmpIPredicate :: "CmpIPredicate \<Rightarrow> nat \<Rightarrow> int \<Rightarrow> int \<Rightarrow> bool" where
  "applyCmpIPredicate CmpI_eq w x y = (x = y)"
| "applyCmpIPredicate CmpI_ne w x y = (x \<noteq> y)"
| "applyCmpIPredicate CmpI_slt w x y = (signedOf w x < signedOf w y)"
| "applyCmpIPredicate CmpI_sle w x y = (signedOf w x \<le> signedOf w y)"
| "applyCmpIPredicate CmpI_sgt w x y = (signedOf w x > signedOf w y)"
| "applyCmpIPredicate CmpI_sge w x y = (signedOf w x \<ge> signedOf w y)"
| "applyCmpIPredicate CmpI_ult w x y = (x < y)"
| "applyCmpIPredicate CmpI_ule w x y = (x \<le> y)"
| "applyCmpIPredicate CmpI_ugt w x y = (x > y)"
| "applyCmpIPredicate CmpI_uge w x y = (x \<ge> y)"

definition i1 :: "bool \<Rightarrow> Scalar" where
  "i1 c = IntVal 1 (if c then 1 else 0)"

fun scalarCmpI :: "CmpIPredicate \<Rightarrow> Scalar \<Rightarrow> Scalar \<Rightarrow> Scalar option" where
  "scalarCmpI p (IntVal w x) (IntVal w' y) =
     (if w = w' then Some (i1 (applyCmpIPredicate p w x y)) else None)"
| "scalarCmpI p x y = None"

text \<open>
  Modelled from the spec: the float comparisons are those of IEEE 754. The ordered ones
  are false and the unordered one is true when an operand is a NaN; two numbers compare by
  their values, so the two zeros are equal.
\<close>

definition signedSignificand :: "bool \<Rightarrow> nat \<Rightarrow> int" where
  "signedSignificand s m = (if s then - int m else int m)"

fun lessThan_f :: "APFloat \<Rightarrow> APFloat \<Rightarrow> bool" where
  "lessThan_f (Finite sem s m e) (Finite sem' s' m' e') =
     (signedSignificand s m * 2 ^ nat (e - min e e') < signedSignificand s' m' * 2 ^ nat (e' - min e e'))"
| "lessThan_f (Finite sem s m e) (Infinity sem' s') = (\<not> s')"
| "lessThan_f (Infinity sem s) (Finite sem' s' m' e') = s"
| "lessThan_f (Infinity sem s) (Infinity sem' s') = (s \<and> \<not> s')"
| "lessThan_f x y = False"

fun applyCmpFPredicate :: "CmpFPredicate \<Rightarrow> APFloat \<Rightarrow> APFloat \<Rightarrow> bool" where
  "applyCmpFPredicate OGT x y = (\<not> isNaN x \<and> \<not> isNaN y \<and> lessThan_f y x)"
| "applyCmpFPredicate OLT x y = (\<not> isNaN x \<and> \<not> isNaN y \<and> lessThan_f x y)"
| "applyCmpFPredicate UNO x y = (isNaN x \<or> isNaN y)"

fun scalarCmpF :: "CmpFPredicate \<Rightarrow> Scalar \<Rightarrow> Scalar \<Rightarrow> Scalar option" where
  "scalarCmpF p (FloatVal x) (FloatVal y) =
     (if getSemantics x = getSemantics y then Some (i1 (applyCmpFPredicate p x y)) else None)"
| "scalarCmpF p x y = None"

fun scalarSelect :: "Scalar \<Rightarrow> Scalar \<Rightarrow> Scalar \<Rightarrow> Scalar option" where
  "scalarSelect (IntVal w c) t f = (if w = 1 then Some (if c \<noteq> 0 then t else f) else None)"
| "scalarSelect c t f = None"

fun lift2 :: "(Scalar \<Rightarrow> Scalar \<Rightarrow> Scalar option) \<Rightarrow> RtVal \<Rightarrow> RtVal \<Rightarrow> RtVal option" where
  "lift2 f (ScalarVal x) (ScalarVal y) = map_option ScalarVal (f x y)"
| "lift2 f (VectorVal xs) (VectorVal ys) =
     (if length xs = length ys then map_option VectorVal (those (map2 f xs ys)) else None)"
| "lift2 f x y = None"

fun evalSelect :: "RtVal \<Rightarrow> RtVal \<Rightarrow> RtVal \<Rightarrow> RtVal option" where
  "evalSelect (ScalarVal (IntVal w c)) t f =
     (if w = 1 then Some (if c \<noteq> 0 then t else f) else None)"
| "evalSelect (VectorVal cs) (VectorVal ts) (VectorVal fs) =
     (if length cs = length ts \<and> length ts = length fs
      then map_option VectorVal
             (those (map (\<lambda>(c, t, f). scalarSelect c t f) (zip cs (zip ts fs))))
      else None)"
| "evalSelect c t f = None"

fun evalConstant :: "Attribute \<Rightarrow> RtVal option" where
  "evalConstant (IntegerAttr (IntegerType w) k) = Some (ScalarVal (APInt w k))"
| "evalConstant (IntegerAttr (VectorType shape (IntegerType w)) k) =
     Some (VectorVal (replicate (prod_list shape) (APInt w k)))"
| "evalConstant (FloatAttr (FloatType sem) f) =
     (if getSemantics f = sem then Some (ScalarVal (FloatVal f)) else None)"
| "evalConstant attr = None"

fun evalSplat :: "Type \<Rightarrow> RtVal list \<Rightarrow> RtVal option" where
  "evalSplat (VectorType shape t) [ScalarVal x] = Some (VectorVal (replicate (prod_list shape) x))"
| "evalSplat t vs = None"

definition evalOp :: "OpName \<Rightarrow> Attribute \<Rightarrow> Type \<Rightarrow> RtVal list \<Rightarrow> RtVal option" where
  "evalOp n attr t vs =
     (if n = ConstantOp then (case vs of [] \<Rightarrow> evalConstant attr | _ \<Rightarrow> None)
      else if n = SplatOp then evalSplat t vs
      else if n = SelectOp then (case vs of [c, x, y] \<Rightarrow> evalSelect c x y | _ \<Rightarrow> None)
      else if n = CmpIOp then
        (case (attr, vs) of
           (CmpIPredicateAttr p, [x, y]) \<Rightarrow> lift2 (scalarCmpI p) x y
         | _ \<Rightarrow> None)
      else if n = CmpFOp then
        (case (attr, vs) of
           (CmpFPredicateAttr p, [x, y]) \<Rightarrow> lift2 (scalarCmpF p) x y
         | _ \<Rightarrow> None)
      else (case vs of [x, y] \<Rightarrow> lift2 (scalarBinary n) x y | _ \<Rightarrow> None))"

text \<open>
  A value is evaluated in an environment that gives the block arguments their values; an op
  whose operand is undefined is undefined. The ops that the pass expands are given no
  meaning of their own (\<open>intBinary\<close> is \<open>None\<close> on them): the theorems compare what an
  expansion computes with the mathematical function.
\<close>

fun eval :: "(nat \<Rightarrow> RtVal option) \<Rightarrow> Value \<Rightarrow> RtVal option" where
  "eval env (BlockArgument i t) = env i"
| "eval env (OpResult n attr ops t) =
     (case those (map (eval env) ops) of
        None \<Rightarrow> None
      | Some vs \<Rightarrow> evalOp n attr t vs)"

text \<open>
  \<open>replacement op r\<close> is the value that the outcome \<open>r\<close> of a pattern puts in the place
  of \<open>op\<close>: the pattern succeeded and handed \<open>op\<close> with exactly one value to
  \<^verbatim>\<open>replaceOp\<close>.
\<close>

definition replacement :: "Value \<Rightarrow> (LogicalResult \<times> PatternRewriter) option \<Rightarrow> Value option" where
  "replacement op r =
     (case r of
        Some (success, rw) \<Rightarrow> (case map_of (replaced rw) op of Some [v] \<Rightarrow> Some v | _ \<Rightarrow> None)
      | _ \<Rightarrow> None)"

definition emitted :: "(LogicalResult \<times> PatternRewriter) option \<Rightarrow> Value list" where
  "emitted r = (case r of Some (res, rw) \<Rightarrow> created rw | None \<Rightarrow> [])"

text \<open>The integers of width \<open>w\<close>: signed, from \<open>MIN\<close> to \<open>MAX\<close>, and unsigned, up to \<open>UMAX\<close>.\<close>

definition isIntN :: "nat \<Rightarrow> int \<Rightarrow> bool" where
  "isIntN w k = (- (2 ^ (w - 1)) \<le> k \<and> k < 2 ^ (w - 1))"

definition isUIntN :: "nat \<Rightarrow> int \<Rightarrow> bool" where
  "isUIntN w k = (0 \<le> k \<and> k < 2 ^ w)"

section \<open>Registration and the pass\<close>

text \<open>
  Modelled from the spec: \<^verbatim>\<open>OpRewritePattern<OpTy>\<close> is the host's. A pattern has a root
  kind, the op \<open>OpTy\<close> of its template argument, and its \<^verbatim>\<open>matchAndRewrite\<close>; the host
  hands it an op only if the op is of the root kind (every such op has two operands), and
  else the match fails with nothing rewritten.
\<close>

datatype RewritePattern =
  RewritePattern OpName "Value \<Rightarrow> PatternRewriter \<Rightarrow> (LogicalResult \<times> PatternRewriter) option"

fun getRootKind :: "RewritePattern \<Rightarrow> OpName" where
  "getRootKind (RewritePattern kind body) = kind"

fun matchAndRewrite :: "RewritePattern \<Rightarrow> Value \<Rightarrow> PatternRewriter
    \<Rightarrow> (LogicalResult \<times> PatternRewriter) option" where
  "matchAndRewrite (RewritePattern kind body) (OpResult n attr [a, b] t) rw =
     (if n = kind then body (OpResult n attr [a, b] t) rw else Some (failure, rw))"
| "matchAndRewrite p op rw = Some (failure, rw)"

definition populateArithmeticExpandOpsPatterns :: "RewritePattern list \<Rightarrow> RewritePattern list" where
  "populateArithmeticExpandOpsPatterns patterns =
     patterns @
     [RewritePattern CeilDivSIOp CeilDivSIOpConverter,
      RewritePattern CeilDivUIOp CeilDivUIOpConverter,
      RewritePattern FloorDivSIOp FloorDivSIOpConverter,
      RewritePattern MaxFOp (MaxMinFOpConverter OGT),
      RewritePattern MinFOp (MaxMinFOpConverter OLT),
      RewritePattern MaxSIOp (MaxMinIOpConverter CmpI_sgt),
      RewritePattern MaxUIOp (MaxMinIOpConverter CmpI_ugt),
      RewritePattern MinSIOp (MaxMinIOpConverter CmpI_slt),
      RewritePattern MinUIOp (MaxMinIOpConverter CmpI_ult)]"

text \<open>
  Modelled from the spec: the conversion target is the host's. It records an action for
  single ops and for whole dialects; the action of an op is the one recorded for the op
  itself, or else the one recorded for its dialect.
\<close>

datatype LegalizationAction = Legal | Illegal

record ConversionTarget =
  legalOperations :: "OpName \<Rightarrow> LegalizationAction option"
  legalDialects :: "Dialect \<Rightarrow> LegalizationAction option"

definition emptyTarget :: ConversionTarget where
  "emptyTarget = \<lparr>legalOperations = (\<lambda>n. None), legalDialects = (\<lambda>d. None)\<rparr>"

fun addLegalDialect :: "Dialect list \<Rightarrow> ConversionTarget \<Rightarrow> ConversionTarget" where
  "addLegalDialect [] target = target"
| "addLegalDialect (d # ds) target =
     addLegalDialect ds (target\<lparr>legalDialects := (legalDialects target)(d \<mapsto> Legal)\<rparr>)"

fun addIllegalOp :: "OpName list \<Rightarrow> ConversionTarget \<Rightarrow> ConversionTarget" where
  "addIllegalOp [] target = target"
| "addIllegalOp (n # ns) target =
     addIllegalOp ns (target\<lparr>legalOperations := (legalOperations target)(n \<mapsto> Illegal)\<rparr>)"

definition getOpAction :: "ConversionTarget \<Rightarrow> OpName \<Rightarrow> LegalizationAction option" where
  "getOpAction target n =
     (case legalOperations target n of
        Some action \<Rightarrow> Some action
      | None \<Rightarrow> legalDialects target (getDialect n))"

text \<open>
  The pass works on a function \<open>'f\<close> of the host and can signal failure. The partial
  conversion driver is the host's and is a parameter: it takes the function, the target and
  the patterns, and returns whether it succeeded, with the function as it leaves it.
\<close>

record 'f PassState =
  theFunction :: 'f
  passFailed :: bool

definition signalPassFailure :: "'f PassState \<Rightarrow> 'f PassState" where
  "signalPassFailure st = st\<lparr>passFailed := True\<rparr>"

definition failed :: "LogicalResult \<Rightarrow> bool" where
  "failed r = (r = failure)"

definition runOnFunction ::
  "('f \<Rightarrow> ConversionTarget \<Rightarrow> RewritePattern list \<Rightarrow> LogicalResult \<times> 'f)
     \<Rightarrow> 'f PassState \<Rightarrow> 'f PassState" where
  "runOnFunction applyPartialConversion st =
     (let patterns = [];
          target = emptyTarget;
          patterns = populateArithmeticExpandOpsPatterns patterns;
          target = addLegalDialect [ArithmeticDialect, StandardOpsDialect] target;
          target = addIllegalOp
            [CeilDivSIOp, CeilDivUIOp, FloorDivSIOp, MaxFOp, MaxSIOp, MaxUIOp,
             MinFOp, MinSIOp, MinUIOp] target;
          (res, f) = applyPartialConversion (theFunction st) target patterns;
          st = st\<lparr>theFunction := f\<rparr>
      in if failed res then signalPassFailure st else st)"

definition createArithmeticExpandOpsPass ::
  "('f \<Rightarrow> ConversionTarget \<Rightarrow> RewritePattern list \<Rightarrow> LogicalResult \<times> 'f)
     \<Rightarrow> 'f PassState \<Rightarrow> 'f PassState" where
  "createArithmeticExpandOpsPass = runOnFunction"

subsection \<open>Concrete ops and operands\<close>

text \<open>
  The scenarios of the spec run a pattern on an op whose operands are the first two block
  arguments, with the environment giving them their values.
\<close>

definition binaryOp :: "OpName \<Rightarrow> Type \<Rightarrow> Value" where
  "binaryOp n t = OpResult n NoAttr [BlockArgument 0 t, BlockArgument 1 t] t"

text \<open>
  An operand of type \<open>t\<close> given by its lanes: a vector holds them all, a scalar is its one
  lane. \<open>numLanes t\<close> is the number of lanes of a value of type \<open>t\<close>.
\<close>

fun fromLanes :: "Type \<Rightarrow> Scalar list \<Rightarrow> RtVal" where
  "fromLanes (VectorType shape t) xs = VectorVal xs"
| "fromLanes t xs = ScalarVal (hd xs)"

fun numLanes :: "Type \<Rightarrow> nat" where
  "numLanes (VectorType shape t) = prod_list shape"
| "numLanes t = 1"

definition operands :: "RtVal \<Rightarrow> RtVal \<Rightarrow> nat \<Rightarrow> RtVal option" where
  "operands x y i = (if i = 0 then Some x else if i = 1 then Some y else None)"

section \<open>Integer arithmetic behind the expansions\<close>

lemma pow_split: "1 \<le> w \<Longrightarrow> (2::int) ^ w = 2 * 2 ^ (w - 1)"
  by (cases w) simp_all

lemma signedOf_mod:
  assumes "1 \<le> w" "isIntN w k"
  shows "signedOf w (k mod 2 ^ w) = k"
proof (cases "0 \<le> k")
  case True
  with assms have "k mod 2 ^ w = k" by (simp add: pow_split isIntN_def)
  with assms show ?thesis by (simp add: signedOf_def isIntN_def)
next
  case False
  have p: "(2::int) ^ w = 2 * 2 ^ (w - 1)" using assms by (simp add: pow_split)
  have lo: "0 \<le> k + 2 ^ w" and hi: "k + 2 ^ w < 2 ^ w" and ge: "2 ^ (w - 1) \<le> k + 2 ^ w"
    using False assms unfolding isIntN_def p by simp_all
  have "k mod 2 ^ w = (k + 2 ^ w) mod 2 ^ w" by simp
  also have "\<dots> = k + 2 ^ w" using lo hi by (rule mod_pos_pos_trivial)
  finally show ?thesis using ge by (simp add: signedOf_def)
qed

lemma sext_id: "1 \<le> w \<Longrightarrow> isIntN w k \<Longrightarrow> sext w k = k"
  by (simp add: sext_def signedOf_mod)

lemma sext_0: "sext w 0 = 0"
  by (simp add: sext_def signedOf_def)

lemma pattern_zero_iff: "k mod 2 ^ w = 0 \<longleftrightarrow> sext w k = 0"
proof -
  have "k mod 2 ^ w < 2 ^ w" by simp
  then have "k mod 2 ^ w - 2 ^ w \<noteq> 0" by linarith
  moreover have "0 < (2::int) ^ (w - 1)" by simp
  ultimately show ?thesis unfolding signedOf_def sext_def
    by (cases "k mod 2 ^ w < 2 ^ (w - 1)") auto
qed

lemma sdiv_pos_pos: "0 \<le> (a::int) \<Longrightarrow> 0 < b \<Longrightarrow> a sdiv b = a div b"
  by (simp add: signed_divide_int_def sgn_if)

lemma sdiv_neg_neg: "(a::int) \<le> 0 \<Longrightarrow> b < 0 \<Longrightarrow> a sdiv b = a div b"
  by (simp add: signed_divide_int_def sgn_if)

lemma sdiv_neg_pos: "(a::int) \<le> 0 \<Longrightarrow> 0 < b \<Longrightarrow> a sdiv b = - ((- a) div b)"
  by (simp add: signed_divide_int_def sgn_if)

lemma div_shift_pos:
  fixes a b :: int
  assumes "0 < b"
  shows "(- 1 - a) div b = - 1 - a div b"
proof (rule int_div_pos_eq [where r = "b - 1 - a mod b"])
  have "b * (a div b) + a mod b = a" by simp
  then show "- 1 - a = b * (- 1 - a div b) + (b - 1 - a mod b)"
    by (simp add: algebra_simps)
  show "0 \<le> b - 1 - a mod b" using assms pos_mod_bound [of b a] by linarith
  show "b - 1 - a mod b < b" using assms pos_mod_sign [of b a] by linarith
qed

lemma div_shift_neg:
  fixes a b :: int
  assumes "b < 0"
  shows "(1 - a) div b = - 1 - a div b"
proof (rule int_div_neg_eq [where r = "b + 1 - a mod b"])
  have "b * (a div b) + a mod b = a" by simp
  then show "1 - a = b * (- 1 - a div b) + (b + 1 - a mod b)"
    by (simp add: algebra_simps)
  show "b + 1 - a mod b \<le> 0" using assms neg_mod_bound [of b a] by linarith
  show "b < b + 1 - a mod b" using assms neg_mod_sign [of b a] by linarith
qed

lemma floor_opp1: "(a::int) < 0 \<Longrightarrow> 0 < b \<Longrightarrow> - 1 - ((- 1 - a) sdiv b) = a div b"
  by (simp add: sdiv_pos_pos div_shift_pos)

lemma floor_opp2: "0 < (a::int) \<Longrightarrow> b < 0 \<Longrightarrow> - 1 - ((1 - a) sdiv b) = a div b"
  by (simp add: sdiv_neg_neg div_shift_neg)

lemma ceil_same1: "0 < (a::int) \<Longrightarrow> 0 < b \<Longrightarrow> 1 + ((- 1 + a) sdiv b) = - ((- a) div b)"
  using div_shift_pos [of b "a - 1"] by (simp add: sdiv_pos_pos)

lemma ceil_same2: "(a::int) < 0 \<Longrightarrow> b < 0 \<Longrightarrow> 1 + ((1 + a) sdiv b) = - ((- a) div b)"
  using div_shift_neg [of b "- a"] by (simp add: sdiv_neg_neg)

lemma ceil_opp1: "(a::int) \<le> 0 \<Longrightarrow> 0 < b \<Longrightarrow> - ((- a) sdiv b) = - ((- a) div b)"
  using sdiv_pos_pos [of "- a" b] by simp

lemma ceil_opp2: "0 \<le> (a::int) \<Longrightarrow> b < 0 \<Longrightarrow> - ((- a) sdiv b) = - ((- a) div b)"
  using sdiv_neg_neg [of "- a" b] by simp

lemma ceil_unsigned: "0 < (a::int) \<Longrightarrow> 0 < b \<Longrightarrow> (a - 1) div b + 1 = - ((- a) div b)"
  using div_shift_pos [of b "a - 1"] by simp

lemma div_pos_bounds1:
  fixes a b :: int
  assumes "0 < b" "0 \<le> a"
  shows "0 \<le> a div b \<and> a div b \<le> a"
proof -
  have q: "0 \<le> a div b" using assms by (simp add: pos_imp_zdiv_nonneg_iff)
  have "1 * (a div b) \<le> b * (a div b)" using assms q by (intro mult_right_mono) simp_all
  moreover have "b * (a div b) + a mod b = a" by simp
  moreover have "0 \<le> a mod b" using assms by simp
  ultimately have "a div b \<le> a" by linarith
  with q show ?thesis by simp
qed

lemma div_pos_bounds2:
  fixes a b :: int
  assumes "0 < b" "a < 0"
  shows "a \<le> a div b \<and> a div b < 0"
proof -
  have q: "a div b < 0" using assms by (simp add: div_neg_pos_less0)
  have "b * (a div b + 1) \<le> 1 * (a div b + 1)"
    using assms q by (intro mult_right_mono_neg) simp_all
  then have "b * (a div b) + b \<le> a div b + 1" by (simp add: algebra_simps)
  moreover have "b * (a div b) + a mod b = a" by simp
  moreover have "a mod b < b" using assms by simp
  ultimately have "a \<le> a div b" by linarith
  with q show ?thesis by simp
qed

lemma isIntN_div:
  assumes x: "isIntN w x" and y: "isIntN w y" and nz: "y \<noteq> 0"
    and nov: "\<not> (x = - (2 ^ (w - 1)) \<and> y = - 1)"
  shows "isIntN w (x div y)"
proof (cases "0 < y")
  case True
  then show ?thesis
    using div_pos_bounds1 [of y x] div_pos_bounds2 [of y x] x unfolding isIntN_def
    by (cases "0 \<le> x") auto
next
  case False
  then have ny: "0 < - y" using nz by simp
  have e: "x div y = (- x) div (- y)" by simp
  show ?thesis
  proof (cases "0 \<le> - x")
    case True
    note b = div_pos_bounds1 [OF ny True]
    show ?thesis
    proof (cases "x = - (2 ^ (w - 1))")
      case True
      then have "1 < - y" using nov ny by linarith
      moreover have "0 < - x" using True by simp
      ultimately have "(- x) div (- y) < - x" by (rule int_div_less_self [rotated])
      then show ?thesis using b x unfolding e isIntN_def by linarith
    next
      case False
      then show ?thesis using b x unfolding e isIntN_def by linarith
    qed
  next
    case False
    then have "- x < 0" by simp
    from div_pos_bounds2 [OF ny this] show ?thesis using x unfolding e isIntN_def by linarith
  qed
qed

section \<open>Evaluating the emitted ops\<close>

lemmas builder_defs = create_def replaceOp_def getIntegerAttr_def create_ConstantOp_def
  create_ConstantFloatOp_def create_CmpIOp_def create_CmpFOp_def create_binary_def
  create_SelectOp_def create_SplatOp_def replaceOpWithNewOp_SelectOp_def emptyRewriter_def

lemma scalar_AddIOp:
  "scalarBinary AddIOp (APInt w x) (APInt w y) = Some (APInt w (x + y))"
  by (simp add: APInt_def intBinary_def mod_add_eq)

lemma scalar_SubIOp:
  "scalarBinary SubIOp (APInt w x) (APInt w y) = Some (APInt w (x - y))"
  by (simp add: APInt_def intBinary_def mod_diff_eq)

lemma scalar_DivSIOp:
  "scalarBinary DivSIOp (APInt w x) (APInt w y) =
     (if sext w y = 0 \<or> sext w x = - (2 ^ (w - 1)) \<and> sext w y = - 1 then None
      else Some (APInt w (sext w x sdiv sext w y)))"
  using pattern_zero_iff [of y w]
  by (simp add: APInt_def intBinary_def sext_def)

lemma scalar_CmpIOp_slt:
  "scalarCmpI CmpI_slt (APInt w x) (APInt w y) = Some (i1 (sext w x < sext w y))"
  by (simp add: APInt_def sext_def)

lemma scalar_CmpIOp_sgt:
  "scalarCmpI CmpI_sgt (APInt w x) (APInt w y) = Some (i1 (sext w y < sext w x))"
  by (simp add: APInt_def sext_def)

lemma scalar_AndIOp:
  "scalarBinary AndIOp (i1 c) (i1 d) = Some (i1 (c \<and> d))"
  by (simp add: i1_def intBinary_def)

lemma scalar_OrIOp:
  "scalarBinary OrIOp (i1 c) (i1 d) = Some (i1 (c \<or> d))"
  by (simp add: i1_def intBinary_def)

lemma evalSelect_APInt:
  "evalSelect (ScalarVal (i1 c)) (ScalarVal (APInt w p)) (ScalarVal (APInt w q)) =
     Some (ScalarVal (APInt w (if c then p else q)))"
  by (simp add: i1_def)

lemmas eval_simps = evalOp_def scalar_AddIOp scalar_SubIOp scalar_CmpIOp_slt
  scalar_CmpIOp_sgt scalar_AndIOp scalar_OrIOp evalSelect_APInt

lemma FloorDivSI_eval:
  assumes "eval env a = Some (ScalarVal (APInt w x))"
    and "eval env b = Some (ScalarVal (APInt w y))"
    and "1 \<le> w" "isIntN w x" "isIntN w y" "y \<noteq> 0"
    and "\<not> (x = - (2 ^ (w - 1)) \<and> y = - 1)"
    and "\<not> (sext w ((if y < 0 then 1 else - 1) - x) = - (2 ^ (w - 1)) \<and> y = - 1)"
    and "op = OpResult FloorDivSIOp NoAttr [a, b] (IntegerType w)"
  shows "\<exists>root. replacement op (FloorDivSIOpConverter op emptyRewriter) = Some root
     \<and> eval env root = Some (ScalarVal (APInt w
             (if x < 0 \<and> 0 < y \<or> 0 < x \<and> y < 0
              then - 1 - sext w ((if y < 0 then 1 else - 1) - x) sdiv y
              else x sdiv y)))"
proof -
  have d1: "scalarBinary DivSIOp (APInt w ((if y < 0 then 1 else - 1) - x)) (APInt w y) =
      Some (APInt w (sext w ((if y < 0 then 1 else - 1) - x) sdiv y))"
    using assms(3-8) by (simp add: scalar_DivSIOp sext_id)
  have d2: "scalarBinary DivSIOp (APInt w x) (APInt w y) = Some (APInt w (x sdiv y))"
    using assms(3-8) by (simp add: scalar_DivSIOp sext_id)
  show ?thesis
    using assms(1-6,9)
    by (simp add: FloorDivSIOpConverter_def builder_defs Let_def replacement_def eval_simps
          d1 d2 sext_id sext_0 split del: if_split cong: if_cong)
qed

lemma FloorDivSI_eval_overflow:
  assumes "eval env a = Some (ScalarVal (APInt w x))"
    and "eval env b = Some (ScalarVal (APInt w y))"
    and "1 \<le> w" "isIntN w x" "isIntN w y" "y \<noteq> 0"
    and "y = - 1" "sext w (1 - x) = - (2 ^ (w - 1))"
    and "op = OpResult FloorDivSIOp NoAttr [a, b] (IntegerType w)"
  shows "\<exists>root. replacement op (FloorDivSIOpConverter op emptyRewriter) = Some root
     \<and> eval env root = None"
proof -
  have d1: "scalarBinary DivSIOp (APInt w ((if y < 0 then 1 else - 1) - x)) (APInt w y) = None"
    using assms(3-8) by (simp add: scalar_DivSIOp sext_id)
  show ?thesis
    using assms(1-6,9)
    by (simp add: FloorDivSIOpConverter_def builder_defs Let_def replacement_def eval_simps
          d1 sext_id sext_0 split del: if_split cong: if_cong)
qed

lemma scalar_CmpIOp_eq:
  "scalarCmpI CmpI_eq (APInt w x) (APInt w y) = Some (i1 (x mod 2 ^ w = y mod 2 ^ w))"
  by (simp add: APInt_def)

lemma scalar_DivUIOp:
  "scalarBinary DivUIOp (APInt w x) (APInt w y) =
     (if y mod 2 ^ w = 0 then None
      else Some (APInt w ((x mod 2 ^ w) div (y mod 2 ^ w))))"
proof (cases "y mod 2 ^ w = 0")
  case True
  then show ?thesis by (simp add: APInt_def intBinary_def)
next
  case False
  have "0 \<le> y mod 2 ^ w" by simp
  with False have y: "0 < y mod 2 ^ w" by linarith
  have x: "0 \<le> x mod 2 ^ w" "x mod 2 ^ w < 2 ^ w" by simp_all
  from div_pos_bounds1 [OF y x(1)] x(2)
  have "((x mod 2 ^ w) div (y mod 2 ^ w)) mod 2 ^ w = (x mod 2 ^ w) div (y mod 2 ^ w)"
    by (intro mod_pos_pos_trivial) linarith+
  with False show ?thesis by (simp add: APInt_def intBinary_def)
qed

lemma isUIntN_mod: "isUIntN w k \<Longrightarrow> k mod 2 ^ w = k"
  by (simp add: isUIntN_def)

lemma CeilDivUI_eval:
  assumes "eval env a = Some (ScalarVal (APInt w x))"
    and "eval env b = Some (ScalarVal (APInt w y))"
    and "getType a = IntegerType w"
    and "isUIntN w x" "isUIntN w y" "y \<noteq> 0"
    and "op = OpResult CeilDivUIOp NoAttr [a, b] t"
  shows "\<exists>v. replacement op (CeilDivUIOpConverter op emptyRewriter) = Some v
     \<and> eval env v =
         Some (ScalarVal (APInt w (if x = 0 then 0 else (x - 1) mod 2 ^ w div y + 1)))"
  using assms
  by (simp add: CeilDivUIOpConverter_def builder_defs Let_def replacement_def eval_simps
        scalar_CmpIOp_eq scalar_DivUIOp isUIntN_mod split del: if_split cong: if_cong)

lemma ceiling_umax_half:
  assumes "1 \<le> w"
  shows "- ((- (2 ^ w - 1)) div (2::int)) = 2 ^ (w - 1)"
proof -
  have "(2::int) ^ w = 2 * 2 ^ (w - 1)" using assms by (rule pow_split)
  then have "- (2 ^ w - 1) = 2 * (- (2 ^ (w - 1))) + (1::int)" by simp
  then have "(- (2 ^ w - 1)) div (2::int) = - (2 ^ (w - 1))" by simp
  then show ?thesis by simp
qed

lemma CeilDivSI_eval:
  assumes "eval env a = Some (ScalarVal (APInt w x))"
    and "eval env b = Some (ScalarVal (APInt w y))"
    and "1 \<le> w" "isIntN w x" "isIntN w y" "y \<noteq> 0"
    and "\<not> (sext w ((if 0 < y then - 1 else 1) + x) = - (2 ^ (w - 1)) \<and> y = - 1)"
    and "\<not> (sext w (- x) = - (2 ^ (w - 1)) \<and> y = - 1)"
    and "op = OpResult CeilDivSIOp NoAttr [a, b] (IntegerType w)"
  shows "\<exists>v. replacement op (CeilDivSIOpConverter op emptyRewriter) = Some v
     \<and> eval env v = Some (ScalarVal (APInt w
             (if x < 0 \<and> y < 0 \<or> 0 < x \<and> 0 < y
              then 1 + sext w ((if 0 < y then - 1 else 1) + x) sdiv y
              else - (sext w (- x) sdiv y))))"
proof -
  have d1: "scalarBinary DivSIOp (APInt w ((if 0 < y then - 1 else 1) + x)) (APInt w y) =
      Some (APInt w (sext w ((if 0 < y then - 1 else 1) + x) sdiv y))"
    using assms(3-8) by (simp add: scalar_DivSIOp sext_id)
  have d2: "scalarBinary DivSIOp (APInt w (- x)) (APInt w y) =
      Some (APInt w (sext w (- x) sdiv y))"
    using assms(3-8) by (simp add: scalar_DivSIOp sext_id)
  show ?thesis
    using assms(1-6,9)
    by (simp add: CeilDivSIOpConverter_def builder_defs Let_def replacement_def eval_simps
          d1 d2 sext_id sext_0 split del: if_split cong: if_cong)
qed

lemma CeilDivSI_eval_overflow:
  assumes "eval env a = Some (ScalarVal (APInt w x))"
    and "eval env b = Some (ScalarVal (APInt w y))"
    and "1 \<le> w" "isIntN w x" "isIntN w y" "y \<noteq> 0"
    and "y = - 1" "sext w (1 + x) = - (2 ^ (w - 1))"
    and "op = OpResult CeilDivSIOp NoAttr [a, b] (IntegerType w)"
  shows "\<exists>v. replacement op (CeilDivSIOpConverter op emptyRewriter) = Some v
     \<and> eval env v = None"
proof -
  have d1: "scalarBinary DivSIOp (APInt w ((if 0 < y then - 1 else 1) + x)) (APInt w y) = None"
    using assms(3-8) by (simp add: scalar_DivSIOp sext_id)
  show ?thesis
    using assms(1-6,9)
    by (simp add: CeilDivSIOpConverter_def builder_defs Let_def replacement_def eval_simps
          d1 sext_id sext_0 split del: if_split cong: if_cong)
qed

lemma isIntN_neg: "isIntN w k \<Longrightarrow> k \<noteq> - (2 ^ (w - 1)) \<Longrightarrow> isIntN w (- k)"
  unfolding isIntN_def by linarith

lemma min_div_bound:
  fixes k :: int
  assumes w: "2 \<le> w" and k: "2 \<le> k"
  shows "- (2 ^ (w - 1)) < (- (2 ^ (w - 1))) div k"
proof -
  have p: "(2::int) ^ (w - 1) = 2 * 2 ^ (w - 2)"
    using w pow_split [of "w - 1"] by (simp add: numeral_2_eq_2 Suc_diff_Suc)
  have "(- (2 ^ (w - 1))) div 2 \<le> (- (2 ^ (w - 1))) div k"
    using k by (intro zdiv_mono2_neg) simp_all
  moreover have "(- (2 ^ (w - 1))) div (2::int) = - (2 ^ (w - 2))" unfolding p by simp
  moreover have "(0::int) < 2 ^ (w - 2)" by simp
  ultimately show ?thesis unfolding p by linarith
qed

lemma isIntN_ceiling:
  assumes w: "2 \<le> w" and x: "isIntN w x" and y: "isIntN w y" and nz: "y \<noteq> 0"
    and nov: "\<not> (x = - (2 ^ (w - 1)) \<and> y = - 1)"
  shows "isIntN w (- ((- x) div y))"
proof (cases "x = - (2 ^ (w - 1))")
  case False
  have nx: "isIntN w (- x)" using x False by (rule isIntN_neg)
  have "- x \<noteq> - (2 ^ (w - 1))" using x unfolding isIntN_def by linarith
  then have q: "isIntN w ((- x) div y)" using isIntN_div [OF nx y nz] by simp
  have "(- x) div y \<noteq> - (2 ^ (w - 1))"
  proof (cases "0 < y")
    case True
    then show ?thesis
      using div_pos_bounds1 [of y "- x"] div_pos_bounds2 [of y "- x"] x False
      unfolding isIntN_def by (cases "0 \<le> - x") linarith+
  next
    case ny: False
    then have yp: "0 < - y" using nz by linarith
    have e: "(- x) div y = x div (- y)" using div_minus_minus [of x "- y"] by simp
    show ?thesis
      using div_pos_bounds1 [of "- y" x] div_pos_bounds2 [of "- y" x] x False yp
      unfolding isIntN_def e by (cases "0 \<le> x") linarith+
  qed
  with q show ?thesis by (rule isIntN_neg)
next
  case True
  show ?thesis
  proof (cases "0 < y")
    case yp: True
    have "0 \<le> - x" using True by simp
    from div_pos_bounds1 [OF yp this] show ?thesis using x unfolding isIntN_def by linarith
  next
    case False
    then have "2 \<le> - y" using nz nov True by linarith
    from min_div_bound [OF w this]
    have "- (2 ^ (w - 1)) < x div (- y)" using True by simp
    moreover have "x div (- y) < 0"
      using div_pos_bounds2 [of "- y" x] True False nz by simp
    moreover have "(- x) div y = x div (- y)" using div_minus_minus [of x "- y"] by simp
    ultimately show ?thesis unfolding isIntN_def by linarith
  qed
qed


lemma sext_min:
  assumes "1 \<le> w"
  shows "sext w (2 ^ (w - 1)) = - (2 ^ (w - 1))"
proof -
  have p: "(2::int) ^ w = 2 * 2 ^ (w - 1)" using assms by (rule pow_split)
  have "(2::int) ^ (w - 1) mod 2 ^ w = 2 ^ (w - 1)" unfolding p by simp
  then show ?thesis unfolding sext_def signedOf_def by (simp add: p)
qed

lemma APInt_min: "1 \<le> w \<Longrightarrow> APInt w (2 ^ (w - 1)) = APInt w (- (2 ^ (w - 1)))"
proof -
  assume "1 \<le> w"
  then have p: "(2::int) ^ w = 2 * 2 ^ (w - 1)" by (rule pow_split)
  have e: "- (2 ^ (w - 1)) + 2 ^ w = (2::int) ^ (w - 1)" unfolding p by simp
  have "(- (2 ^ (w - 1)) + 2 ^ w) mod 2 ^ w = (- (2 ^ (w - 1))) mod (2::int) ^ w"
    by (rule mod_add_self2)
  then have "2 ^ (w - 1) mod 2 ^ w = (- (2 ^ (w - 1))) mod (2::int) ^ w"
    by (simp only: e)
  then show ?thesis unfolding APInt_def by (rule arg_cong)
qed

subsection \<open>Lane by lane\<close>

lemma those_cmpI:
  assumes "length xs = length ys"
  shows "those (map2 (scalarCmpI p) (map (IntVal w) xs) (map (IntVal w) ys)) =
           Some (map i1 (map2 (applyCmpIPredicate p w) xs ys))"
  using assms by (induction xs ys rule: list_induct2) simp_all

lemma those_select:
  assumes "length bs = length ts" "length ts = length fs"
  shows "those (map (\<lambda>(c, t, f). scalarSelect c t f) (zip (map i1 bs) (zip ts fs))) =
           Some (map (\<lambda>(b, t, f). if b then t else f) (zip bs (zip ts fs)))"
  using assms by (induction bs ts fs rule: list_induct3) (simp_all add: i1_def)

lemma select_lanes:
  assumes "length xs = length ys"
  shows "map (\<lambda>(b, t, f). if b then t else f) (zip (map2 c xs ys) (zip (map g xs) (map g ys))) =
           map g (map2 (\<lambda>x y. if c x y then x else y) xs ys)"
  using assms by (induction xs ys rule: list_induct2) simp_all

lemma lift2_cmpI_vec:
  assumes "length xs = length ys"
  shows "lift2 (scalarCmpI p) (VectorVal (map (IntVal w) xs)) (VectorVal (map (IntVal w) ys)) =
           Some (VectorVal (map i1 (map2 (applyCmpIPredicate p w) xs ys)))"
  using assms those_cmpI [OF assms] by simp

lemma evalSelect_vec:
  assumes "length bs = length ts" "length ts = length fs"
  shows "evalSelect (VectorVal (map i1 bs)) (VectorVal ts) (VectorVal fs) =
           Some (VectorVal (map (\<lambda>(b, t, f). if b then t else f) (zip bs (zip ts fs))))"
  using assms those_select [OF assms] by simp

lemma MaxMinI_eval:
  assumes "eval env lhs = Some (fromLanes t (map (IntVal w) xs))"
    and "eval env rhs = Some (fromLanes t (map (IntVal w) ys))"
    and "length xs = numLanes t" "length ys = numLanes t"
    and "op = OpResult kind NoAttr [lhs, rhs] t"
  shows "\<exists>v. replacement op (MaxMinIOpConverter pred op emptyRewriter) = Some v
     \<and> eval env v = Some (fromLanes t (map (IntVal w)
          (map2 (\<lambda>x y. if applyCmpIPredicate pred w x y then x else y) xs ys)))"
proof (cases "\<exists>shape u. t = VectorType shape u")
  case True
  then obtain shape u where t: "t = VectorType shape u" by blast
  have l: "length xs = length ys" using assms by simp
  show ?thesis using assms l unfolding t
    by (simp add: MaxMinIOpConverter_def builder_defs Let_def replacement_def evalOp_def
          lift2_cmpI_vec evalSelect_vec select_lanes del: lift2.simps evalSelect.simps map_map)
next
  case False
  then have f: "\<And>zs. fromLanes t zs = ScalarVal (hd zs)" by (cases t) simp_all
  from False have n: "numLanes t = 1" by (cases t) simp_all
  obtain x where xs: "xs = [x]" using assms n by (cases xs) simp_all
  obtain y where ys: "ys = [y]" using assms n by (cases ys) simp_all
  show ?thesis using assms unfolding f xs ys
    by (simp add: MaxMinIOpConverter_def builder_defs Let_def replacement_def evalOp_def i1_def)
qed


lemma those_cmpF:
  assumes "length xs = length ys"
    and "\<forall>x\<in>set xs. getSemantics x = sem" "\<forall>y\<in>set ys. getSemantics y = sem"
  shows "those (map2 (scalarCmpF p) (map FloatVal xs) (map FloatVal ys)) =
           Some (map i1 (map2 (applyCmpFPredicate p) xs ys))"
  using assms by (induction xs ys rule: list_induct2) simp_all

lemma lift2_cmpF_vec:
  assumes "length xs = length ys"
    and "\<forall>x\<in>set xs. getSemantics x = sem" "\<forall>y\<in>set ys. getSemantics y = sem"
  shows "lift2 (scalarCmpF p) (VectorVal (map FloatVal xs)) (VectorVal (map FloatVal ys)) =
           Some (VectorVal (map i1 (map2 (applyCmpFPredicate p) xs ys)))"
  using assms(1) those_cmpF [OF assms] by simp

lemma maxmin_lanes:
  assumes "length xs = length ys"
  shows "map (\<lambda>(b, t, f). if b then t else f)
           (zip (map2 u xs ys)
              (zip (replicate (length ys) (g q))
                 (map (\<lambda>(b, t, f). if b then t else f)
                    (zip (map2 c xs ys) (zip (map g xs) (map g ys)))))) =
         map g (map2 (\<lambda>x y. if u x y then q else if c x y then x else y) xs ys)"
  using assms by (induction xs ys rule: list_induct2) simp_all

lemma getQNaN_semantics: "getSemantics (getQNaN sem) = sem"
  by (simp add: getQNaN_def)

lemma MaxMinF_eval:
  assumes t: "getElementTypeOrSelf t = FloatType sem"
    and tl: "getType lhs = t"
    and el: "eval env lhs = Some (fromLanes t (map FloatVal xs))"
    and er: "eval env rhs = Some (fromLanes t (map FloatVal ys))"
    and lx: "length xs = numLanes t" and ly: "length ys = numLanes t"
    and sx: "\<forall>x\<in>set xs. getSemantics x = sem" and sy: "\<forall>y\<in>set ys. getSemantics y = sem"
    and op: "op = OpResult kind NoAttr [lhs, rhs] t"
  shows "\<exists>v. replacement op (MaxMinFOpConverter pred op emptyRewriter) = Some v
     \<and> eval env v = Some (fromLanes t (map FloatVal
          (map2 (\<lambda>x y. if applyCmpFPredicate UNO x y then getQNaN sem
                        else if applyCmpFPredicate pred x y then x else y) xs ys)))"
proof (cases "\<exists>shape u. t = VectorType shape u")
  case True
  then obtain shape where t': "t = VectorType shape (FloatType sem)" using t by auto
  have l: "length xs = length ys" using lx ly by simp
  have n: "prod_list shape = length ys" using ly t' by simp
  show ?thesis using tl el er l n sx sy op unfolding t'
    by (simp add: MaxMinFOpConverter_def builder_defs Let_def replacement_def evalOp_def
          lift2_cmpF_vec [where sem = sem] evalSelect_vec maxmin_lanes getQNaN_semantics
          del: lift2.simps evalSelect.simps map_map applyCmpFPredicate.simps)
next
  case False
  then have t': "t = FloatType sem" using t by (cases t) simp_all
  obtain x where xs: "xs = [x]" using lx t' by (cases xs) simp_all
  obtain y where ys: "ys = [y]" using ly t' by (cases ys) simp_all
  show ?thesis using tl el er sx sy op unfolding t' xs ys
    by (simp add: MaxMinFOpConverter_def builder_defs Let_def replacement_def evalOp_def i1_def
          getQNaN_semantics del: applyCmpFPredicate.simps)
qed


subsection \<open>The ops a pattern emits\<close>

lemmas pattern_defs = CeilDivSIOpConverter_def CeilDivUIOpConverter_def FloorDivSIOpConverter_def
  MaxMinFOpConverter_def MaxMinIOpConverter_def

lemma pattern_cases [consumes 1, case_names CeilDivSI CeilDivUI FloorDivSI MaxMinF MaxMinI]:
  assumes "p \<in> set (populateArithmeticExpandOpsPatterns [])"
  obtains "p = RewritePattern CeilDivSIOp CeilDivSIOpConverter"
  | "p = RewritePattern CeilDivUIOp CeilDivUIOpConverter"
  | "p = RewritePattern FloorDivSIOp FloorDivSIOpConverter"
  | kind pred where "p = RewritePattern kind (MaxMinFOpConverter pred)" "kind \<in> {MaxFOp, MinFOp}"
  | kind pred where "p = RewritePattern kind (MaxMinIOpConverter pred)"
      "kind \<in> {MaxSIOp, MaxUIOp, MinSIOp, MinUIOp}"
  using assms unfolding populateArithmeticExpandOpsPatterns_def by auto

lemma float_type_cases:
  assumes "getElementTypeOrSelf t = FloatType sem"
  obtains "t = FloatType sem" | shape where "t = VectorType shape (FloatType sem)"
  using assms by (cases t) simp_all

lemma target_action:
  "getOpAction
     (addIllegalOp [CeilDivSIOp, CeilDivUIOp, FloorDivSIOp, MaxFOp, MaxSIOp, MaxUIOp,
                    MinFOp, MinSIOp, MinUIOp]
        (addLegalDialect [ArithmeticDialect, StandardOpsDialect] emptyTarget)) n =
   (if n \<in> {CeilDivSIOp, CeilDivUIOp, FloorDivSIOp, MaxFOp, MaxSIOp, MaxUIOp,
              MinFOp, MinSIOp, MinUIOp} then Some Illegal else Some Legal)"
  by (cases n) (simp_all add: getOpAction_def emptyTarget_def)

lemma no_pattern_matches:
  assumes "n \<notin> {CeilDivSIOp, CeilDivUIOp, FloorDivSIOp, MaxFOp, MaxSIOp, MaxUIOp,
                  MinFOp, MinSIOp, MinUIOp}"
    and "q \<in> set (populateArithmeticExpandOpsPatterns [])"
  shows "matchAndRewrite q (OpResult n attr ops ty) rw = Some (failure, rw)"
proof -
  obtain kind body where q: "q = RewritePattern kind body" by (cases q)
  have k: "kind \<noteq> n" using assms unfolding q populateArithmeticExpandOpsPatterns_def by auto
  show ?thesis
  proof (cases ops)
    case Nil
    then show ?thesis unfolding q by simp
  next
    case (Cons a as)
    show ?thesis
    proof (cases as)
      case Nil
      then show ?thesis unfolding q Cons by simp
    next
      case (Cons b bs)
      then show ?thesis using k unfolding q \<open>ops = a # as\<close> by (cases bs) auto
    qed
  qed
qed

lemma emitted_names:
  assumes p: "p \<in> set (populateArithmeticExpandOpsPatterns [])"
    and op: "op = OpResult (getRootKind p) NoAttr [lhs, rhs] t"
    and fl: "getRootKind p \<in> {MaxFOp, MinFOp} \<longrightarrow> getElementTypeOrSelf (getType lhs) = FloatType sem"
  shows "\<exists>rw v. matchAndRewrite p op emptyRewriter = Some (success, rw)
           \<and> replaced rw = [(op, [v])] \<and> created rw \<noteq> [] \<and> v = last (created rw)
           \<and> (\<forall>e\<in>set (created rw). \<exists>n attr ops ty. e = OpResult n attr ops ty
                 \<and> n \<in> {ConstantOp, AddIOp, SubIOp, DivSIOp, DivUIOp, AndIOp, OrIOp, CmpIOp,
                          CmpFOp, SelectOp, SplatOp})"
  using p
proof (cases rule: pattern_cases)
  case CeilDivSI
  then show ?thesis using op by (simp add: pattern_defs builder_defs Let_def)
next
  case CeilDivUI
  then show ?thesis using op by (simp add: pattern_defs builder_defs Let_def)
next
  case FloorDivSI
  then show ?thesis using op by (simp add: pattern_defs builder_defs Let_def)
next
  case (MaxMinF kind pred)
  then have "getElementTypeOrSelf (getType lhs) = FloatType sem" using fl by simp
  then show ?thesis
  proof (cases rule: float_type_cases)
    case 1
    then show ?thesis using MaxMinF op by (simp add: pattern_defs builder_defs Let_def)
  next
    case (2 shape)
    then show ?thesis using MaxMinF op by (simp add: pattern_defs builder_defs Let_def)
  qed
next
  case (MaxMinI kind pred)
  then show ?thesis using op by (simp add: pattern_defs builder_defs Let_def)
qed

section \<open>Signed floor division\<close>

text \<open>
  C2 says that for every width \<open>w \<ge> 2\<close> and all signed \<open>A\<close>, \<open>B\<close> of that width with
  \<open>B \<noteq> 0\<close>, other than \<open>A = MIN\<close> with \<open>B = -1\<close>, the expansion of the signed floor
  division evaluates to the floor of the rational \<open>A / B\<close>. The code does not do that for
  \<open>A = MIN + 1\<close> and \<open>B = -1\<close>: before it selects, the expansion builds the quotient
  \<open>(x - a) / b\<close> of the branch for operands of different sign, \<open>x - a\<close> is \<open>1 - (MIN + 1)\<close>,
  which wraps around to \<open>MIN\<close>, and the signed divide of \<open>MIN\<close> by \<open>-1\<close> overflows. At
  width 32 the value that \<open>FloorDivSIOpConverter\<close> puts in the place of the op has no value
  on these operands, and the floor of \<open>A / B\<close> is \<open>2147483647\<close>, an integer of the width.
\<close>

theorem FloorDivSI_min_plus_one_by_minus_one:
  "\<exists>v. replacement (binaryOp FloorDivSIOp (IntegerType 32))
          (FloorDivSIOpConverter (binaryOp FloorDivSIOp (IntegerType 32)) emptyRewriter) = Some v
     \<and> eval (operands (ScalarVal (APInt 32 (- 2147483647))) (ScalarVal (APInt 32 (- 1)))) v = None
     \<and> \<lfloor>real_of_int (- 2147483647) / real_of_int (- 1)\<rfloor> = 2147483647
     \<and> isIntN 32 2147483647"
proof -
  have s: "sext 32 2147483648 = - 2147483648"
    by (simp add: sext_def signedOf_def)
  from FloorDivSI_eval_overflow [of "operands (ScalarVal (APInt 32 (- 2147483647))) (ScalarVal (APInt 32 (- 1)))"
      "BlockArgument 0 (IntegerType 32)" 32 "- 2147483647" "BlockArgument 1 (IntegerType 32)" "- 1"
      "binaryOp FloorDivSIOp (IntegerType 32)"]
  show ?thesis
    by (simp add: isIntN_def binaryOp_def operands_def s)
qed

text \<open>
  The divide that overflows is the seventh op that the pattern creates: its operands
  evaluate to \<open>MIN\<close> and \<open>-1\<close>, and the select that follows takes the other quotient,
  \<open>a / b\<close>, which is the floor.
\<close>

lemma FloorDivSI_divides_min_by_minus_one:
  "\<exists>rw xMinusA b.
      FloorDivSIOpConverter (binaryOp FloorDivSIOp (IntegerType 32)) emptyRewriter = Some (success, rw)
    \<and> created rw ! 6 = OpResult DivSIOp NoAttr [xMinusA, b] (IntegerType 32)
    \<and> eval (operands (ScalarVal (APInt 32 (- 2147483647))) (ScalarVal (APInt 32 (- 1)))) xMinusA =
        Some (ScalarVal (APInt 32 (- 2147483648)))
    \<and> eval (operands (ScalarVal (APInt 32 (- 2147483647))) (ScalarVal (APInt 32 (- 1)))) b =
        Some (ScalarVal (APInt 32 (- 1)))
    \<and> eval (operands (ScalarVal (APInt 32 (- 2147483647))) (ScalarVal (APInt 32 (- 1))))
          (created rw ! 6) = None"
  by (simp add: binaryOp_def operands_def FloorDivSIOpConverter_def
        builder_defs Let_def eval_simps sext_def signedOf_def APInt_def i1_def intBinary_def)

text \<open>
  The same holds at every width: for \<open>A = MIN + 1\<close> and \<open>B = -1\<close> the replacement has no
  value, and the floor of \<open>A / B\<close> is \<open>MAX\<close>.
\<close>

lemma FloorDivSI_no_value:
  assumes w: "2 \<le> w"
    and ea: "eval env a = Some (ScalarVal (APInt w (- (2 ^ (w - 1)) + 1)))"
    and eb: "eval env b = Some (ScalarVal (APInt w (- 1)))"
    and op: "op = OpResult FloorDivSIOp NoAttr [a, b] (IntegerType w)"
  shows "\<exists>v. replacement op (FloorDivSIOpConverter op emptyRewriter) = Some v
           \<and> eval env v = None
           \<and> \<lfloor>real_of_int (- (2 ^ (w - 1)) + 1) / real_of_int (- 1)\<rfloor> = 2 ^ (w - 1) - 1
           \<and> isIntN w (2 ^ (w - 1) - 1)"
proof -
  have w1: "1 \<le> w" using w by simp
  have p: "(1::int) \<le> 2 ^ (w - 1)" by simp
  have A: "isIntN w (- (2 ^ (w - 1)) + 1)"
    using p unfolding isIntN_def by (intro conjI) linarith+
  have B: "isIntN w (- 1)"
    using p unfolding isIntN_def by (intro conjI) linarith+
  have c: "sext w (1 - (- (2 ^ (w - 1)) + 1)) = - (2 ^ (w - 1))"
    using sext_min [OF w1] by simp
  have nz: "(- 1 :: int) \<noteq> 0" by simp
  from FloorDivSI_eval_overflow [OF ea eb w1 A B nz refl c op]
  obtain v where "replacement op (FloorDivSIOpConverter op emptyRewriter) = Some v"
    and "eval env v = None"
    by blast
  moreover have "\<lfloor>real_of_int (- (2 ^ (w - 1)) + 1) / real_of_int (- 1)\<rfloor> = 2 ^ (w - 1) - 1"
    using floor_divide_of_int_eq [of "- (2 ^ (w - 1)) + 1" "- 1 :: int", where ?'a = real] by simp
  moreover have "isIntN w (2 ^ (w - 1) - 1)"
    using p unfolding isIntN_def by (intro conjI) linarith+
  ultimately show ?thesis by blast
qed

text \<open>
  For all other operands the expansion is right: the floor is computed for every width
  \<open>w \<ge> 2\<close> and all signed \<open>A\<close>, \<open>B\<close> with \<open>B \<noteq> 0\<close>, other than \<open>B = -1\<close> with \<open>A = MIN\<close>
  or with \<open>A = MIN + 1\<close>. The operands \<open>a\<close> and \<open>b\<close> are any values that evaluate to \<open>A\<close>
  and \<open>B\<close>.
\<close>

lemma FloorDivSI_floor_except_overflow:
  assumes w: "2 \<le> w" and A: "isIntN w A" and B: "isIntN w B" and nz: "B \<noteq> 0"
    and nov: "\<not> (A = - (2 ^ (w - 1)) \<and> B = - 1)"
    and nov1: "\<not> (A = - (2 ^ (w - 1)) + 1 \<and> B = - 1)"
    and ea: "eval env a = Some (ScalarVal (APInt w A))"
    and eb: "eval env b = Some (ScalarVal (APInt w B))"
    and op: "op = OpResult FloorDivSIOp NoAttr [a, b] (IntegerType w)"
  shows "\<exists>v r. replacement op (FloorDivSIOpConverter op emptyRewriter) = Some v
           \<and> eval env v = Some r
           \<and> r = ScalarVal (APInt w \<lfloor>real_of_int A / real_of_int B\<rfloor>)
           \<and> getSExtValue r = Some \<lfloor>real_of_int A / real_of_int B\<rfloor>"
proof -
  have w1: "1 \<le> w" using w by simp
  let ?X = "(if B < 0 then 1 else - 1) :: int"
  let ?e = "if A < 0 \<and> 0 < B \<or> 0 < A \<and> B < 0
              then - 1 - sext w (?X - A) sdiv B
              else A sdiv B"
  have c: "\<not> (sext w (?X - A) = - (2 ^ (w - 1)) \<and> B = - 1)"
  proof
    assume h: "sext w (?X - A) = - (2 ^ (w - 1)) \<and> B = - 1"
    then have b: "B = - 1" by simp
    with h have m: "sext w (1 - A) = - (2 ^ (w - 1))" by simp
    have "- (2 ^ (w - 1)) + 2 \<le> A" using A nov nov1 b unfolding isIntN_def by linarith
    then have "isIntN w (1 - A)" using A unfolding isIntN_def by linarith
    then have "sext w (1 - A) = 1 - A" using w1 by (simp add: sext_id)
    with m show False using A unfolding isIntN_def by linarith
  qed
  from FloorDivSI_eval [OF ea eb w1 A B nz nov c op]
  obtain v where v: "replacement op (FloorDivSIOpConverter op emptyRewriter) = Some v"
    and ev: "eval env v = Some (ScalarVal (APInt w ?e))"
    by blast
  have "?e = A div B"
  proof (cases "A < 0 \<and> 0 < B")
    case True
    then have "isIntN w (- 1 - A)" using A unfolding isIntN_def by auto
    then have s: "sext w (- 1 - A) = - 1 - A" using w1 by (simp add: sext_id)
    show ?thesis using True s floor_opp1 [of A B] by simp
  next
    case False
    note nf = this
    show ?thesis
    proof (cases "0 < A \<and> B < 0")
      case True
      then have "isIntN w (1 - A)" using A unfolding isIntN_def by auto
      then have s: "sext w (1 - A) = 1 - A" using w1 by (simp add: sext_id)
      show ?thesis using True s floor_opp2 [of A B] by simp
    next
      case False
      then consider "0 \<le> A" "0 < B" | "A \<le> 0" "B < 0" using nf nz by linarith
      then show ?thesis
      proof cases
        case 1
        then show ?thesis by (simp add: sdiv_pos_pos)
      next
        case 2
        then show ?thesis using nf False by (auto simp: sdiv_neg_neg)
      qed
    qed
  qed
  moreover have "\<lfloor>real_of_int A / real_of_int B\<rfloor> = A div B"
    by (rule floor_divide_of_int_eq)
  moreover have "sext w (A div B) = A div B"
    using isIntN_div [OF A B nz nov] w1 by (simp add: sext_id)
  ultimately show ?thesis using v ev by (simp add: APInt_def sext_def)
qed

text \<open>Scenario 8 of the spec: at width 32, the floor of \<open>-7 / 2\<close> is \<open>-4\<close>.\<close>

lemma FloorDivSI_floor_except_overflow_scenario:
  "\<exists>v r. replacement (binaryOp FloorDivSIOp (IntegerType 32))
            (FloorDivSIOpConverter (binaryOp FloorDivSIOp (IntegerType 32)) emptyRewriter) = Some v
     \<and> eval (operands (ScalarVal (APInt 32 (- 7))) (ScalarVal (APInt 32 2))) v = Some r
     \<and> r = ScalarVal (APInt 32 (- 4)) \<and> getSExtValue r = Some (- 4)"
  using FloorDivSI_floor_except_overflow [of 32 "- 7" 2
      "operands (ScalarVal (APInt 32 (- 7))) (ScalarVal (APInt 32 2))"
      "BlockArgument 0 (IntegerType 32)" "BlockArgument 1 (IntegerType 32)"
      "binaryOp FloorDivSIOp (IntegerType 32)"]
  by (simp add: isIntN_def binaryOp_def operands_def)

section \<open>Unsigned ceiling division\<close>

text \<open>
  C3: for every width \<open>w \<ge> 2\<close> and all unsigned \<open>A\<close>, \<open>B\<close> of that width with \<open>B \<noteq> 0\<close>,
  the value that \<open>CeilDivUIOpConverter\<close> puts in the place of the op evaluates to the
  \<open>w\<close>-bit integer whose unsigned reading is the ceiling of the rational \<open>A / B\<close>. In
  particular \<open>A = 0\<close> gives \<open>0\<close>, and \<open>A = UMAX\<close> with \<open>B = 2\<close> gives \<open>2 ^ (w - 1)\<close>.
\<close>

theorem CeilDivUI_ceiling:
  assumes w: "2 \<le> w" and A: "isUIntN w A" and B: "isUIntN w B" and nz: "B \<noteq> 0"
    and ea: "eval env a = Some (ScalarVal (APInt w A))"
    and eb: "eval env b = Some (ScalarVal (APInt w B))"
    and ta: "getType a = IntegerType w"
    and op: "op = OpResult CeilDivUIOp NoAttr [a, b] (IntegerType w)"
  shows "\<exists>v r. replacement op (CeilDivUIOpConverter op emptyRewriter) = Some v
           \<and> eval env v = Some r
           \<and> r = ScalarVal (APInt w \<lceil>real_of_int A / real_of_int B\<rceil>)
           \<and> getZExtValue r = Some \<lceil>real_of_int A / real_of_int B\<rceil>
           \<and> (A = 0 \<longrightarrow> getZExtValue r = Some 0)
           \<and> (A = 2 ^ w - 1 \<and> B = 2 \<longrightarrow> getZExtValue r = Some (2 ^ (w - 1)))"
proof -
  let ?e = "if A = 0 then 0 else (A - 1) mod 2 ^ w div B + 1"
  let ?c = "\<lceil>real_of_int A / real_of_int B\<rceil>"
  from CeilDivUI_eval [OF ea eb ta A B nz op]
  obtain v where v: "replacement op (CeilDivUIOpConverter op emptyRewriter) = Some v"
    and ev: "eval env v = Some (ScalarVal (APInt w ?e))"
    by blast
  have Bp: "0 < B" using B nz unfolding isUIntN_def by linarith
  have c: "?c = - ((- A) div B)" by (rule ceiling_divide_eq_div)
  have e: "?e = ?c"
  proof (cases "A = 0")
    case True
    then show ?thesis by simp
  next
    case False
    then have Ap: "0 < A" using A unfolding isUIntN_def by linarith
    then have "(A - 1) mod 2 ^ w = A - 1" using A unfolding isUIntN_def by simp
    then show ?thesis using False c ceil_unsigned [OF Ap Bp] by simp
  qed
  have range: "0 \<le> ?e \<and> ?e \<le> A"
  proof (cases "A = 0")
    case True
    then show ?thesis by simp
  next
    case False
    then have Ap: "0 \<le> A - 1" using A unfolding isUIntN_def by linarith
    then have "(A - 1) mod 2 ^ w = A - 1" using A unfolding isUIntN_def by simp
    then show ?thesis using False div_pos_bounds1 [OF Bp Ap] by simp
  qed
  then have m: "?c mod 2 ^ w = ?c" using A unfolding e isUIntN_def by simp
  have z: "A = 0 \<longrightarrow> ?c = 0" by simp
  have u: "A = 2 ^ w - 1 \<and> B = 2 \<longrightarrow> ?c = 2 ^ (w - 1)"
    using ceiling_umax_half [of w] w unfolding c by simp
  show ?thesis using v ev m z u unfolding e by (simp add: APInt_def)
qed

text \<open>Scenario 2 of the spec: at width 32, \<open>UMAX\<close> divided by \<open>2\<close> gives \<open>2 ^ 31\<close>.\<close>

theorem CeilDivUI_ceiling_witness:
  "\<exists>v r. replacement (binaryOp CeilDivUIOp (IntegerType 32))
            (CeilDivUIOpConverter (binaryOp CeilDivUIOp (IntegerType 32)) emptyRewriter) = Some v
     \<and> eval (operands (ScalarVal (APInt 32 4294967295)) (ScalarVal (APInt 32 2))) v = Some r
     \<and> r = ScalarVal (APInt 32 2147483648) \<and> getZExtValue r = Some 2147483648"
  using CeilDivUI_ceiling [of 32 4294967295 2
      "operands (ScalarVal (APInt 32 4294967295)) (ScalarVal (APInt 32 2))"
      "BlockArgument 0 (IntegerType 32)" "BlockArgument 1 (IntegerType 32)"
      "binaryOp CeilDivUIOp (IntegerType 32)"]
  by (simp add: isUIntN_def binaryOp_def operands_def)

section \<open>Signed ceiling division\<close>

text \<open>
  C1 says that for every width \<open>w \<ge> 2\<close> and all signed \<open>A\<close>, \<open>B\<close> of that width with
  \<open>B \<noteq> 0\<close>, other than \<open>A = MIN\<close> with \<open>B = -1\<close>, the expansion of the signed ceiling
  division evaluates to the ceiling of the rational \<open>A / B\<close>. The code does not do that for
  \<open>A = MIN\<close> and \<open>B > 1\<close>: the operands then differ in sign, the expansion takes
  \<open>- ((- A) / B)\<close>, and \<open>- A\<close> wraps around to \<open>MIN\<close>. At width 32 with \<open>A = MIN\<close> and
  \<open>B = 2\<close> the value that \<open>CeilDivSIOpConverter\<close> puts in the place of the op evaluates to
  \<open>2 ^ 30\<close>, and the ceiling of \<open>A / B\<close> is \<open>- (2 ^ 30)\<close>. No divide overflows on these
  operands: the two quotients are \<open>MAX / 2\<close> and \<open>MIN / 2\<close>.
\<close>

theorem CeilDivSI_min_by_two:
  "\<exists>v r. replacement (binaryOp CeilDivSIOp (IntegerType 32))
            (CeilDivSIOpConverter (binaryOp CeilDivSIOp (IntegerType 32)) emptyRewriter) = Some v
     \<and> eval (operands (ScalarVal (APInt 32 (- 2147483648))) (ScalarVal (APInt 32 2))) v = Some r
     \<and> r = ScalarVal (APInt 32 1073741824) \<and> getSExtValue r = Some 1073741824
     \<and> \<lceil>real_of_int (- 2147483648) / real_of_int 2\<rceil> = - 1073741824"
proof -
  have s: "sext 32 2147483648 = - 2147483648"
    by (simp add: sext_def signedOf_def)
  have d: "(- 2147483648 :: int) sdiv 2 = - 1073741824"
    by (simp add: signed_divide_int_def)
  from CeilDivSI_eval [of "operands (ScalarVal (APInt 32 (- 2147483648))) (ScalarVal (APInt 32 2))"
      "BlockArgument 0 (IntegerType 32)" 32 "- 2147483648" "BlockArgument 1 (IntegerType 32)" 2
      "binaryOp CeilDivSIOp (IntegerType 32)"]
  show ?thesis
    by (simp add: isIntN_def binaryOp_def operands_def s d APInt_def signedOf_def)
qed


text \<open>
  For \<open>A = MAX\<close> and \<open>B = -1\<close> the replacement has no value: before it selects, the
  expansion builds the quotient \<open>(x + a) / b\<close> of the branch for operands of the same sign,
  and \<open>x + a\<close> is \<open>1 + MAX\<close>, which wraps around to \<open>MIN\<close>. The ceiling of \<open>A / B\<close> is
  \<open>- MAX\<close>.
\<close>

lemma CeilDivSI_max_by_minus_one:
  "\<exists>v. replacement (binaryOp CeilDivSIOp (IntegerType 32))
          (CeilDivSIOpConverter (binaryOp CeilDivSIOp (IntegerType 32)) emptyRewriter) = Some v
     \<and> eval (operands (ScalarVal (APInt 32 2147483647)) (ScalarVal (APInt 32 (- 1)))) v = None
     \<and> \<lceil>real_of_int 2147483647 / real_of_int (- 1)\<rceil> = - 2147483647
     \<and> isIntN 32 (- 2147483647)"
proof -
  have s: "sext 32 2147483648 = - 2147483648"
    by (simp add: sext_def signedOf_def)
  from CeilDivSI_eval_overflow [of "operands (ScalarVal (APInt 32 2147483647)) (ScalarVal (APInt 32 (- 1)))"
      "BlockArgument 0 (IntegerType 32)" 32 2147483647 "BlockArgument 1 (IntegerType 32)" "- 1"
      "binaryOp CeilDivSIOp (IntegerType 32)"]
  show ?thesis
    by (simp add: isIntN_def binaryOp_def operands_def s)
qed

lemma CeilDivSI_divides_min_by_minus_one:
  "\<exists>rw xPlusA b.
      CeilDivSIOpConverter (binaryOp CeilDivSIOp (IntegerType 32)) emptyRewriter = Some (success, rw)
    \<and> created rw ! 6 = OpResult DivSIOp NoAttr [xPlusA, b] (IntegerType 32)
    \<and> eval (operands (ScalarVal (APInt 32 2147483647)) (ScalarVal (APInt 32 (- 1)))) xPlusA =
        Some (ScalarVal (APInt 32 (- 2147483648)))
    \<and> eval (operands (ScalarVal (APInt 32 2147483647)) (ScalarVal (APInt 32 (- 1)))) b =
        Some (ScalarVal (APInt 32 (- 1)))
    \<and> eval (operands (ScalarVal (APInt 32 2147483647)) (ScalarVal (APInt 32 (- 1))))
          (created rw ! 6) = None"
  by (simp add: binaryOp_def operands_def CeilDivSIOpConverter_def
        builder_defs Let_def eval_simps sext_def signedOf_def APInt_def i1_def intBinary_def)

text \<open>
  For all other operands the expansion is right: the ceiling is computed for every width
  \<open>w \<ge> 2\<close> and all signed \<open>A\<close>, \<open>B\<close> with \<open>B \<noteq> 0\<close>, other than \<open>A = MIN\<close> with \<open>B = -1\<close>
  or with \<open>B > 1\<close>, and \<open>A = MAX\<close> with \<open>B = -1\<close>.
\<close>

lemma CeilDivSI_ceiling_except_min:
  assumes w: "2 \<le> w" and A: "isIntN w A" and B: "isIntN w B" and nz: "B \<noteq> 0"
    and nov: "\<not> (A = - (2 ^ (w - 1)) \<and> B = - 1)"
    and nmin: "\<not> (A = - (2 ^ (w - 1)) \<and> 1 < B)"
    and nmax: "\<not> (A = 2 ^ (w - 1) - 1 \<and> B = - 1)"
    and ea: "eval env a = Some (ScalarVal (APInt w A))"
    and eb: "eval env b = Some (ScalarVal (APInt w B))"
    and op: "op = OpResult CeilDivSIOp NoAttr [a, b] (IntegerType w)"
  shows "\<exists>v r. replacement op (CeilDivSIOpConverter op emptyRewriter) = Some v
           \<and> eval env v = Some r
           \<and> r = ScalarVal (APInt w \<lceil>real_of_int A / real_of_int B\<rceil>)
           \<and> getSExtValue r = Some \<lceil>real_of_int A / real_of_int B\<rceil>"
proof -
  have w1: "1 \<le> w" using w by simp
  let ?X = "(if 0 < B then - 1 else 1) :: int"
  let ?e = "if A < 0 \<and> B < 0 \<or> 0 < A \<and> 0 < B
              then 1 + sext w (?X + A) sdiv B
              else - (sext w (- A) sdiv B)"
  let ?c = "- ((- A) div B)"
  have c1: "\<not> (sext w (?X + A) = - (2 ^ (w - 1)) \<and> B = - 1)"
  proof
    assume h: "sext w (?X + A) = - (2 ^ (w - 1)) \<and> B = - 1"
    then have b: "B = - 1" by simp
    with h have m: "sext w (1 + A) = - (2 ^ (w - 1))" by simp
    have "isIntN w (1 + A)" using A nmax b unfolding isIntN_def by linarith
    then have "sext w (1 + A) = 1 + A" using w1 by (simp add: sext_id)
    with m show False using A unfolding isIntN_def by linarith
  qed
  have c2: "\<not> (sext w (- A) = - (2 ^ (w - 1)) \<and> B = - 1)"
  proof
    assume h: "sext w (- A) = - (2 ^ (w - 1)) \<and> B = - 1"
    then have "A \<noteq> - (2 ^ (w - 1))" using nov by simp
    with A have "isIntN w (- A)" by (rule isIntN_neg)
    then have "sext w (- A) = - A" using w1 by (simp add: sext_id)
    with h show False using A unfolding isIntN_def by linarith
  qed
  from CeilDivSI_eval [OF ea eb w1 A B nz c1 c2 op]
  obtain v where v: "replacement op (CeilDivSIOpConverter op emptyRewriter) = Some v"
    and ev: "eval env v = Some (ScalarVal (APInt w ?e))"
    by blast
  have "APInt w ?e = APInt w ?c"
  proof (cases "A < 0 \<and> B < 0")
    case True
    then have "isIntN w (1 + A)" using A unfolding isIntN_def by auto
    then have s: "sext w (1 + A) = 1 + A" using w1 by (simp add: sext_id)
    have "1 + A \<noteq> - (2 ^ (w - 1))" using A True unfolding isIntN_def by linarith
    then show ?thesis using True s ceil_same2 [of A B] by simp
  next
    case False
    note nn = this
    show ?thesis
    proof (cases "0 < A \<and> 0 < B")
      case True
      then have "isIntN w (- 1 + A)" using A unfolding isIntN_def by auto
      then have s: "sext w (- 1 + A) = - 1 + A" using w1 by (simp add: sext_id)
      show ?thesis using True s ceil_same1 [of A B] by simp
    next
      case False
      note np = this
      show ?thesis
      proof (cases "A = - (2 ^ (w - 1))")
        case True
        then have "A < 0" by simp
        then have B1: "B = 1" using nn nmin nz True by linarith
        have "?e = 2 ^ (w - 1)" using True B1 sext_min [OF w1] by simp
        moreover have "?c = - (2 ^ (w - 1))" using True B1 by simp
        ultimately show ?thesis using APInt_min [OF w1] by simp
      next
        case False
        then have "isIntN w (- A)" using A by (intro isIntN_neg)
        then have s: "sext w (- A) = - A" using w1 by (simp add: sext_id)
        have m: "- A \<noteq> - (2 ^ (w - 1))" using A unfolding isIntN_def by linarith
        consider "A \<le> 0" "0 < B" | "0 \<le> A" "B < 0" using nn np nz by linarith
        then show ?thesis
        proof cases
          case 1
          then show ?thesis using s m nn np ceil_opp1 [of A B] by auto
        next
          case 2
          then show ?thesis using s m nn np ceil_opp2 [of A B] by auto
        qed
      qed
    qed
  qed
  moreover have "\<lceil>real_of_int A / real_of_int B\<rceil> = ?c"
    by (rule ceiling_divide_eq_div)
  moreover have "sext w ?c = ?c"
    using isIntN_ceiling [OF w A B nz nov] w1 by (simp add: sext_id)
  ultimately show ?thesis using v ev by (simp add: APInt_def sext_def)
qed


lemma CeilDivSI_ceiling_except_min_scenario:
  "\<exists>v r. replacement (binaryOp CeilDivSIOp (IntegerType 32))
            (CeilDivSIOpConverter (binaryOp CeilDivSIOp (IntegerType 32)) emptyRewriter) = Some v
     \<and> eval (operands (ScalarVal (APInt 32 (- 7))) (ScalarVal (APInt 32 2))) v = Some r
     \<and> r = ScalarVal (APInt 32 (- 3)) \<and> getSExtValue r = Some (- 3)"
  using CeilDivSI_ceiling_except_min [of 32 "- 7" 2
      "operands (ScalarVal (APInt 32 (- 7))) (ScalarVal (APInt 32 2))"
      "BlockArgument 0 (IntegerType 32)" "BlockArgument 1 (IntegerType 32)"
      "binaryOp CeilDivSIOp (IntegerType 32)"]
  by (simp add: isIntN_def binaryOp_def operands_def)

text \<open>
  The divergence is not special to width 32 or to \<open>B = 2\<close>: at every width, for \<open>A = MIN\<close>
  and every \<open>B > 1\<close>, the replacement evaluates to \<open>2 ^ (w - 1) div B\<close>, which is positive,
  and the ceiling of \<open>A / B\<close> is its negation.
\<close>

lemma CeilDivSI_min_wrong:
  assumes w: "2 \<le> w" and B: "isIntN w B" and B1: "1 < B"
    and ea: "eval env a = Some (ScalarVal (APInt w (- (2 ^ (w - 1)))))"
    and eb: "eval env b = Some (ScalarVal (APInt w B))"
    and op: "op = OpResult CeilDivSIOp NoAttr [a, b] (IntegerType w)"
  shows "\<exists>v r. replacement op (CeilDivSIOpConverter op emptyRewriter) = Some v
           \<and> eval env v = Some r
           \<and> getSExtValue r = Some (2 ^ (w - 1) div B)
           \<and> \<lceil>real_of_int (- (2 ^ (w - 1))) / real_of_int B\<rceil> = - (2 ^ (w - 1) div B)
           \<and> 0 < 2 ^ (w - 1) div B"
proof -
  have w1: "1 \<le> w" using w by simp
  let ?A = "- (2 ^ (w - 1)) :: int"
  let ?q = "2 ^ (w - 1) div B"
  have A: "isIntN w ?A" unfolding isIntN_def by simp
  have nz: "B \<noteq> 0" using B1 by simp
  have c1: "\<not> (sext w ((if 0 < B then - 1 else 1) + ?A) = - (2 ^ (w - 1)) \<and> B = - 1)"
    using B1 by simp
  have c2: "\<not> (sext w (- ?A) = - (2 ^ (w - 1)) \<and> B = - 1)"
    using B1 by simp
  from CeilDivSI_eval [OF ea eb w1 A B nz c1 c2 op] B1
  obtain v where v: "replacement op (CeilDivSIOpConverter op emptyRewriter) = Some v"
    and ev: "eval env v = Some (ScalarVal (APInt w (- (sext w (2 ^ (w - 1)) sdiv B))))"
    by auto
  have s: "sext w (2 ^ (w - 1)) = ?A" using w1 by (rule sext_min)
  have d: "?A sdiv B = - ?q" using sdiv_neg_pos [of ?A B] B1 by simp
  have Bp: "0 < B" using B1 by simp
  have "B \<le> 2 ^ (w - 1)" using B unfolding isIntN_def by simp
  then have "B div B \<le> ?q" using Bp by (intro zdiv_mono1) simp_all
  then have pos: "0 < ?q" using Bp by simp
  have "?q < 2 ^ (w - 1)" using B1 by (intro int_div_less_self) simp_all
  then have "isIntN w ?q" using pos unfolding isIntN_def by simp
  then have sq: "sext w ?q = ?q" using w1 by (simp add: sext_id)
  have c: "\<lceil>real_of_int ?A / real_of_int B\<rceil> = - ?q"
    using ceiling_divide_eq_div [of ?A B] by simp
  have "getSExtValue (ScalarVal (APInt w (- (sext w (2 ^ (w - 1)) sdiv B)))) = Some ?q"
    unfolding s d using sq by (simp add: APInt_def sext_def)
  then show ?thesis using v ev c pos by simp
qed

text \<open>
  The three division expansions on the operands \<open>0 / 7\<close> (unsigned) and \<open>\<plusminus>7 / \<plusminus>2\<close>
  (signed), at width 32.
\<close>

lemma division_scenarios:
  "\<exists>u s f. replacement (binaryOp CeilDivUIOp (IntegerType 32))
              (CeilDivUIOpConverter (binaryOp CeilDivUIOp (IntegerType 32)) emptyRewriter) = Some u
     \<and> replacement (binaryOp CeilDivSIOp (IntegerType 32))
              (CeilDivSIOpConverter (binaryOp CeilDivSIOp (IntegerType 32)) emptyRewriter) = Some s
     \<and> replacement (binaryOp FloorDivSIOp (IntegerType 32))
              (FloorDivSIOpConverter (binaryOp FloorDivSIOp (IntegerType 32)) emptyRewriter) = Some f
     \<and> eval (operands (ScalarVal (APInt 32 0)) (ScalarVal (APInt 32 7))) u
           = Some (ScalarVal (APInt 32 0))
     \<and> eval (operands (ScalarVal (APInt 32 7)) (ScalarVal (APInt 32 2))) s
           = Some (ScalarVal (APInt 32 4))
     \<and> eval (operands (ScalarVal (APInt 32 (- 7))) (ScalarVal (APInt 32 2))) s
           = Some (ScalarVal (APInt 32 (- 3)))
     \<and> eval (operands (ScalarVal (APInt 32 7)) (ScalarVal (APInt 32 (- 2)))) s
           = Some (ScalarVal (APInt 32 (- 3)))
     \<and> eval (operands (ScalarVal (APInt 32 (- 7))) (ScalarVal (APInt 32 (- 2)))) s
           = Some (ScalarVal (APInt 32 4))
     \<and> eval (operands (ScalarVal (APInt 32 7)) (ScalarVal (APInt 32 2))) f
           = Some (ScalarVal (APInt 32 3))
     \<and> eval (operands (ScalarVal (APInt 32 (- 7))) (ScalarVal (APInt 32 2))) f
           = Some (ScalarVal (APInt 32 (- 4)))
     \<and> eval (operands (ScalarVal (APInt 32 7)) (ScalarVal (APInt 32 (- 2)))) f
           = Some (ScalarVal (APInt 32 (- 4)))
     \<and> eval (operands (ScalarVal (APInt 32 (- 7))) (ScalarVal (APInt 32 (- 2)))) f
           = Some (ScalarVal (APInt 32 3))"
  by (simp add: binaryOp_def operands_def pattern_defs builder_defs Let_def replacement_def
        evalOp_def APInt_def i1_def intBinary_def signedOf_def signed_divide_int_def)

section \<open>Integer minimum and maximum\<close>

text \<open>
  C5: each of the four instantiations of \<open>MaxMinIOpConverter\<close> is registered with its
  predicate (signed maximum with signed greater, unsigned maximum with unsigned greater,
  signed minimum with signed less, unsigned minimum with unsigned less), and for all integer
  operands, scalars or vectors taken lane by lane, the value it puts in the place of the op
  evaluates to \<open>lhs\<close> where the predicate holds of \<open>lhs\<close> and \<open>rhs\<close>, and to \<open>rhs\<close> where
  it does not.
\<close>

theorem MaxMinI_select:
  assumes inst: "(kind, pred) \<in> {(MaxSIOp, CmpI_sgt), (MaxUIOp, CmpI_ugt),
                                  (MinSIOp, CmpI_slt), (MinUIOp, CmpI_ult)}"
    and el: "eval env lhs = Some (fromLanes t (map (IntVal w) xs))"
    and er: "eval env rhs = Some (fromLanes t (map (IntVal w) ys))"
    and lx: "length xs = numLanes t" and ly: "length ys = numLanes t"
    and op: "op = OpResult kind NoAttr [lhs, rhs] t"
    and cmp: "cmp = (\<lambda>x y. case kind of
                        MaxSIOp \<Rightarrow> signedOf w x > signedOf w y
                      | MaxUIOp \<Rightarrow> x > y
                      | MinSIOp \<Rightarrow> signedOf w x < signedOf w y
                      | _ \<Rightarrow> x < y)"
  shows "RewritePattern kind (MaxMinIOpConverter pred) \<in> set (populateArithmeticExpandOpsPatterns [])
     \<and> (\<exists>v. replacement op
               (matchAndRewrite (RewritePattern kind (MaxMinIOpConverter pred)) op emptyRewriter)
             = Some v
           \<and> eval env v =
               Some (fromLanes t (map (IntVal w) (map2 (\<lambda>x y. if cmp x y then x else y) xs ys))))"
proof -
  have p: "applyCmpIPredicate pred w = cmp"
    using inst unfolding cmp by (auto simp: fun_eq_iff)
  have m: "matchAndRewrite (RewritePattern kind (MaxMinIOpConverter pred)) op emptyRewriter =
             MaxMinIOpConverter pred op emptyRewriter"
    unfolding op by simp
  have r: "RewritePattern kind (MaxMinIOpConverter pred) \<in> set (populateArithmeticExpandOpsPatterns [])"
    using inst by (auto simp: populateArithmeticExpandOpsPatterns_def)
  from MaxMinI_eval [OF el er lx ly op, of pred] r show ?thesis unfolding m p by simp
qed

text \<open>Scenario 14 of the spec: the signed maximum of \<open>-1\<close> and \<open>INT_MAX\<close> is \<open>INT_MAX\<close>.\<close>

theorem MaxMinI_select_witness:
  "\<exists>v. replacement (binaryOp MaxSIOp (IntegerType 32))
          (matchAndRewrite (RewritePattern MaxSIOp (MaxMinIOpConverter CmpI_sgt))
             (binaryOp MaxSIOp (IntegerType 32)) emptyRewriter) = Some v
     \<and> eval (operands (ScalarVal (APInt 32 (- 1))) (ScalarVal (APInt 32 2147483647))) v =
         Some (ScalarVal (APInt 32 2147483647))"
  using MaxMinI_select [of MaxSIOp CmpI_sgt
      "operands (ScalarVal (APInt 32 (- 1))) (ScalarVal (APInt 32 2147483647))"
      "BlockArgument 0 (IntegerType 32)" "IntegerType 32" 32 "[4294967295]"
      "BlockArgument 1 (IntegerType 32)" "[2147483647]"
      "binaryOp MaxSIOp (IntegerType 32)"
      "\<lambda>x y. signedOf 32 x > signedOf 32 y"]
  by (simp add: binaryOp_def operands_def APInt_def signedOf_def)


text \<open>Scenario 15 of the spec: the unsigned maximum of \<open>-1\<close>, that is \<open>UMAX\<close>, and \<open>1\<close> is \<open>-1\<close>.\<close>

lemma MaxUI_scenario:
  "\<exists>v. replacement (binaryOp MaxUIOp (IntegerType 32))
          (matchAndRewrite (RewritePattern MaxUIOp (MaxMinIOpConverter CmpI_ugt))
             (binaryOp MaxUIOp (IntegerType 32)) emptyRewriter) = Some v
     \<and> eval (operands (ScalarVal (APInt 32 (- 1))) (ScalarVal (APInt 32 1))) v =
         Some (ScalarVal (APInt 32 (- 1)))"
  by (simp add: binaryOp_def operands_def APInt_def MaxMinIOpConverter_def builder_defs Let_def
        replacement_def evalOp_def i1_def)

section \<open>Float minimum and maximum\<close>

text \<open>
  C4: the two instantiations of \<open>MaxMinFOpConverter\<close> are registered with the ordered
  comparisons, greater for the maximum and less for the minimum. For all float operands of
  one format, scalars or vectors taken lane by lane, the value the pattern puts in the place
  of the op evaluates to the quiet NaN of the operands' scalar format where \<open>lhs\<close> or \<open>rhs\<close>
  is a NaN, and elsewhere to \<open>lhs\<close> where the comparison holds (\<open>lhs\<close> greater than \<open>rhs\<close>
  for the maximum, less for the minimum) and to \<open>rhs\<close> where it does not.
\<close>

theorem MaxMinF_select:
  assumes inst: "(kind, pred) \<in> {(MaxFOp, OGT), (MinFOp, OLT)}"
    and t: "getElementTypeOrSelf t = FloatType sem"
    and tl: "getType lhs = t"
    and el: "eval env lhs = Some (fromLanes t (map FloatVal xs))"
    and er: "eval env rhs = Some (fromLanes t (map FloatVal ys))"
    and lx: "length xs = numLanes t" and ly: "length ys = numLanes t"
    and sx: "\<forall>x\<in>set xs. getSemantics x = sem" and sy: "\<forall>y\<in>set ys. getSemantics y = sem"
    and op: "op = OpResult kind NoAttr [lhs, rhs] t"
    and cmp: "cmp = (\<lambda>x y. case kind of MaxFOp \<Rightarrow> lessThan_f y x | _ \<Rightarrow> lessThan_f x y)"
  shows "RewritePattern kind (MaxMinFOpConverter pred) \<in> set (populateArithmeticExpandOpsPatterns [])
     \<and> isQuietNaN (getQNaN sem) \<and> getSemantics (getQNaN sem) = sem
     \<and> (\<exists>v. replacement op
               (matchAndRewrite (RewritePattern kind (MaxMinFOpConverter pred)) op emptyRewriter)
             = Some v
           \<and> eval env v =
               Some (fromLanes t (map FloatVal
                 (map2 (\<lambda>x y. if isNaN x \<or> isNaN y then getQNaN sem
                               else if cmp x y then x else y) xs ys))))"
proof -
  have p: "(\<lambda>x y. if applyCmpFPredicate UNO x y then getQNaN sem
                   else if applyCmpFPredicate pred x y then x else y) =
           (\<lambda>x y. if isNaN x \<or> isNaN y then getQNaN sem else if cmp x y then x else y)"
    using inst unfolding cmp by (auto simp: fun_eq_iff)
  have m: "matchAndRewrite (RewritePattern kind (MaxMinFOpConverter pred)) op emptyRewriter =
             MaxMinFOpConverter pred op emptyRewriter"
    unfolding op by simp
  have r: "RewritePattern kind (MaxMinFOpConverter pred) \<in> set (populateArithmeticExpandOpsPatterns [])"
    using inst by (auto simp: populateArithmeticExpandOpsPatterns_def)
  have q: "isQuietNaN (getQNaN sem) \<and> getSemantics (getQNaN sem) = sem"
    by (simp add: getQNaN_def)
  from MaxMinF_eval [OF t tl el er lx ly sx sy op, of pred] r q show ?thesis
    unfolding m p by simp
qed

text \<open>
  Scenario 13 of the spec: the minimum of \<open>[1, NaN, 3, 4]\<close> and \<open>[2, 2, 2, 2]\<close> in four
  lanes is \<open>[1, qNaN, 2, 2]\<close>; the NaN operand here is a signalling one with a payload.
\<close>

theorem MaxMinF_select_witness:
  "\<exists>v. replacement (binaryOp MinFOp (VectorType [4] (FloatType IEEEsingle)))
          (matchAndRewrite (RewritePattern MinFOp (MaxMinFOpConverter OLT))
             (binaryOp MinFOp (VectorType [4] (FloatType IEEEsingle))) emptyRewriter) = Some v
     \<and> eval
          (operands
             (VectorVal [FloatVal (Finite IEEEsingle False 1 0), FloatVal (NaN IEEEsingle True False 5),
                         FloatVal (Finite IEEEsingle False 3 0), FloatVal (Finite IEEEsingle False 1 2)])
             (VectorVal [FloatVal (Finite IEEEsingle False 1 1), FloatVal (Finite IEEEsingle False 1 1),
                         FloatVal (Finite IEEEsingle False 1 1), FloatVal (Finite IEEEsingle False 1 1)])) v =
         Some (VectorVal [FloatVal (Finite IEEEsingle False 1 0), FloatVal (getQNaN IEEEsingle),
                          FloatVal (Finite IEEEsingle False 1 1), FloatVal (Finite IEEEsingle False 1 1)])"
  using MaxMinF_select [of MinFOp OLT "VectorType [4] (FloatType IEEEsingle)" IEEEsingle
      "BlockArgument 0 (VectorType [4] (FloatType IEEEsingle))"
      "operands
             (VectorVal [FloatVal (Finite IEEEsingle False 1 0), FloatVal (NaN IEEEsingle True False 5),
                         FloatVal (Finite IEEEsingle False 3 0), FloatVal (Finite IEEEsingle False 1 2)])
             (VectorVal [FloatVal (Finite IEEEsingle False 1 1), FloatVal (Finite IEEEsingle False 1 1),
                         FloatVal (Finite IEEEsingle False 1 1), FloatVal (Finite IEEEsingle False 1 1)])"
      "[Finite IEEEsingle False 1 0, NaN IEEEsingle True False 5, Finite IEEEsingle False 3 0, Finite IEEEsingle False 1 2]"
      "BlockArgument 1 (VectorType [4] (FloatType IEEEsingle))"
      "[Finite IEEEsingle False 1 1, Finite IEEEsingle False 1 1, Finite IEEEsingle False 1 1, Finite IEEEsingle False 1 1]"
      "binaryOp MinFOp (VectorType [4] (FloatType IEEEsingle))"
      "\<lambda>x y. lessThan_f x y"]
  by (simp add: binaryOp_def operands_def signedSignificand_def)

text \<open>
  Scenarios 11 and 12 of the spec: the maximum of \<open>1.0\<close> and \<open>2.0\<close> is \<open>2.0\<close>, and the
  maximum of a NaN and \<open>2.0\<close> is the quiet NaN.
\<close>

lemma MaxF_scenarios:
  "\<exists>v. replacement (binaryOp MaxFOp (FloatType IEEEsingle))
          (MaxMinFOpConverter OGT (binaryOp MaxFOp (FloatType IEEEsingle)) emptyRewriter) = Some v
     \<and> eval
          (operands (ScalarVal (FloatVal (Finite IEEEsingle False 1 0)))
                    (ScalarVal (FloatVal (Finite IEEEsingle False 1 1)))) v =
         Some (ScalarVal (FloatVal (Finite IEEEsingle False 1 1)))
     \<and> eval
          (operands (ScalarVal (FloatVal (NaN IEEEsingle False True 1)))
                    (ScalarVal (FloatVal (Finite IEEEsingle False 1 1)))) v =
         Some (ScalarVal (FloatVal (getQNaN IEEEsingle)))"
  by (simp add: binaryOp_def operands_def MaxMinFOpConverter_def builder_defs Let_def
        replacement_def evalOp_def i1_def getQNaN_def signedSignificand_def)

text \<open>
  C10: when neither operand of the float maximum or minimum is a NaN and neither is less
  than the other, the ordered comparison of the pattern is false and the value the pattern
  puts in the place of the op evaluates to \<open>rhs\<close>. Two zeros are such operands whatever
  their signs.
\<close>

theorem MaxMinF_equal_is_rhs:
  assumes inst: "(kind, pred) \<in> {(MaxFOp, OGT), (MinFOp, OLT)}"
    and tl: "getType lhs = FloatType sem"
    and el: "eval env lhs = Some (ScalarVal (FloatVal x))"
    and er: "eval env rhs = Some (ScalarVal (FloatVal y))"
    and sx: "getSemantics x = sem" and sy: "getSemantics y = sem"
    and op: "op = OpResult kind NoAttr [lhs, rhs] (FloatType sem)"
    and nx: "\<not> isNaN x" and ny: "\<not> isNaN y"
    and eq: "\<not> lessThan_f x y \<and> \<not> lessThan_f y x"
  shows "\<not> applyCmpFPredicate pred x y
     \<and> (\<exists>v. replacement op
               (matchAndRewrite (RewritePattern kind (MaxMinFOpConverter pred)) op emptyRewriter)
             = Some v
           \<and> eval env v = Some (ScalarVal (FloatVal y)))
     \<and> (\<forall>s s' e e'. \<not> lessThan_f (Finite sem s 0 e) (Finite sem s' 0 e'))"
proof -
  have c: "\<not> applyCmpFPredicate pred x y" using inst eq by auto
  have u: "\<not> applyCmpFPredicate UNO x y" using nx ny by simp
  have m: "matchAndRewrite (RewritePattern kind (MaxMinFOpConverter pred)) op emptyRewriter =
             MaxMinFOpConverter pred op emptyRewriter"
    unfolding op by simp
  have z: "\<forall>s s' e e'. \<not> lessThan_f (Finite sem s 0 e) (Finite sem s' 0 e')"
    by (simp add: signedSignificand_def)
  from MaxMinF_eval [of "FloatType sem" sem lhs env "[x]" rhs "[y]" op kind pred]
    tl el er sx sy op
  have "\<exists>v. replacement op (MaxMinFOpConverter pred op emptyRewriter) = Some v
     \<and> eval env v = Some (ScalarVal (FloatVal y))"
    using c u by (simp del: applyCmpFPredicate.simps)
  then show ?thesis using c z unfolding m by simp
qed

text \<open>The maximum of \<open>+0\<close> and \<open>-0\<close> is \<open>-0\<close>.\<close>

theorem MaxMinF_equal_is_rhs_witness:
  "\<exists>v. replacement (binaryOp MaxFOp (FloatType IEEEsingle))
          (matchAndRewrite (RewritePattern MaxFOp (MaxMinFOpConverter OGT))
             (binaryOp MaxFOp (FloatType IEEEsingle)) emptyRewriter) = Some v
     \<and> eval
          (operands (ScalarVal (FloatVal (Finite IEEEsingle False 0 0)))
                    (ScalarVal (FloatVal (Finite IEEEsingle True 0 0)))) v =
         Some (ScalarVal (FloatVal (Finite IEEEsingle True 0 0)))"
  using MaxMinF_equal_is_rhs [of MaxFOp OGT "BlockArgument 0 (FloatType IEEEsingle)" IEEEsingle
      "operands (ScalarVal (FloatVal (Finite IEEEsingle False 0 0)))
                (ScalarVal (FloatVal (Finite IEEEsingle True 0 0)))"
      "Finite IEEEsingle False 0 0" "BlockArgument 1 (FloatType IEEEsingle)"
      "Finite IEEEsingle True 0 0" "binaryOp MaxFOp (FloatType IEEEsingle)"]
  by (simp add: binaryOp_def operands_def signedSignificand_def)

text \<open>
  The four cases of the zeros: maximum and minimum of \<open>+0\<close> and \<open>-0\<close> are \<open>-0\<close>, maximum
  and minimum of \<open>-0\<close> and \<open>+0\<close> are \<open>+0\<close>.
\<close>

lemma MaxMinF_zeros:
  "\<exists>v w. replacement (binaryOp MaxFOp (FloatType IEEEsingle))
            (MaxMinFOpConverter OGT (binaryOp MaxFOp (FloatType IEEEsingle)) emptyRewriter) = Some v
     \<and> replacement (binaryOp MinFOp (FloatType IEEEsingle))
            (MaxMinFOpConverter OLT (binaryOp MinFOp (FloatType IEEEsingle)) emptyRewriter) = Some w
     \<and> eval (operands (ScalarVal (FloatVal (Finite IEEEsingle False 0 0)))
                         (ScalarVal (FloatVal (Finite IEEEsingle True 0 0)))) v =
         Some (ScalarVal (FloatVal (Finite IEEEsingle True 0 0)))
     \<and> eval (operands (ScalarVal (FloatVal (Finite IEEEsingle False 0 0)))
                         (ScalarVal (FloatVal (Finite IEEEsingle True 0 0)))) w =
         Some (ScalarVal (FloatVal (Finite IEEEsingle True 0 0)))
     \<and> eval (operands (ScalarVal (FloatVal (Finite IEEEsingle True 0 0)))
                         (ScalarVal (FloatVal (Finite IEEEsingle False 0 0)))) v =
         Some (ScalarVal (FloatVal (Finite IEEEsingle False 0 0)))
     \<and> eval (operands (ScalarVal (FloatVal (Finite IEEEsingle True 0 0)))
                         (ScalarVal (FloatVal (Finite IEEEsingle False 0 0)))) w =
         Some (ScalarVal (FloatVal (Finite IEEEsingle False 0 0)))"
  by (simp add: binaryOp_def operands_def MaxMinFOpConverter_def builder_defs Let_def
        replacement_def evalOp_def i1_def getQNaN_def signedSignificand_def)

section \<open>Types of the replacements\<close>

text \<open>
  C6: for every registered pattern and every op of its root kind whose operands have the
  op's result type \<open>t\<close> (a float or a vector of floats for the float patterns), the value
  the pattern puts in the place of the op has the type \<open>t\<close>, shape included. The float
  patterns emit the comparison, the first select, the unordered comparison and the scalar
  quiet NaN constant; when \<open>t\<close> is a vector they then emit the broadcast of the constant to
  \<open>t\<close>, and the final select, emitted last, takes the broadcast; when \<open>t\<close> is a scalar the
  final select takes the constant itself.
\<close>

theorem replacement_type:
  assumes p: "p \<in> set (populateArithmeticExpandOpsPatterns [])"
    and op: "op = OpResult (getRootKind p) NoAttr [lhs, rhs] t"
    and tl: "getType lhs = t" and tr: "getType rhs = t"
    and fl: "getRootKind p \<in> {MaxFOp, MinFOp} \<longrightarrow> getElementTypeOrSelf t = FloatType sem"
  shows "\<exists>v. replacement op (matchAndRewrite p op emptyRewriter) = Some v
           \<and> getType v = getType op
           \<and> (getRootKind p \<in> {MaxFOp, MinFOp} \<longrightarrow>
                (\<exists>cmp select unordered nan.
                   nan = OpResult ConstantOp (FloatAttr (FloatType sem) (getQNaN sem)) [] (FloatType sem)
                 \<and> (case t of
                      VectorType shape u \<Rightarrow>
                        emitted (matchAndRewrite p op emptyRewriter) =
                          [cmp, select, unordered, nan, OpResult SplatOp NoAttr [nan] t, v]
                        \<and> v = OpResult SelectOp NoAttr
                               [unordered, OpResult SplatOp NoAttr [nan] t, select] t
                    | _ \<Rightarrow>
                        emitted (matchAndRewrite p op emptyRewriter) =
                          [cmp, select, unordered, nan, v]
                        \<and> v = OpResult SelectOp NoAttr [unordered, nan, select] t)))"
  using p
proof (cases rule: pattern_cases)
  case CeilDivSI
  then show ?thesis using op tl tr
    by (simp add: pattern_defs builder_defs Let_def replacement_def emitted_def)
next
  case CeilDivUI
  then show ?thesis using op tl tr
    by (simp add: pattern_defs builder_defs Let_def replacement_def emitted_def)
next
  case FloorDivSI
  then show ?thesis using op tl tr
    by (simp add: pattern_defs builder_defs Let_def replacement_def emitted_def)
next
  case (MaxMinF kind pred)
  then have "getElementTypeOrSelf t = FloatType sem" using fl by simp
  then show ?thesis
  proof (cases rule: float_type_cases)
    case 1
    then show ?thesis using MaxMinF op tl tr
      by (simp add: pattern_defs builder_defs Let_def replacement_def emitted_def)
  next
    case (2 shape)
    then show ?thesis using MaxMinF op tl tr
      by (simp add: pattern_defs builder_defs Let_def replacement_def emitted_def)
  qed
next
  case (MaxMinI kind pred)
  then show ?thesis using op tl tr
    by (auto simp: pattern_defs builder_defs Let_def replacement_def emitted_def)
qed

text \<open>The minimum on vectors of four single-precision floats.\<close>

theorem replacement_type_witness:
  "\<exists>v unordered select nan.
      replacement (binaryOp MinFOp (VectorType [4] (FloatType IEEEsingle)))
        (matchAndRewrite (RewritePattern MinFOp (MaxMinFOpConverter OLT))
           (binaryOp MinFOp (VectorType [4] (FloatType IEEEsingle))) emptyRewriter) = Some v
    \<and> getType v = VectorType [4] (FloatType IEEEsingle)
    \<and> nan = OpResult ConstantOp (FloatAttr (FloatType IEEEsingle) (getQNaN IEEEsingle)) []
              (FloatType IEEEsingle)
    \<and> v = OpResult SelectOp NoAttr
           [unordered, OpResult SplatOp NoAttr [nan] (VectorType [4] (FloatType IEEEsingle)), select]
           (VectorType [4] (FloatType IEEEsingle))"
  using replacement_type [of "RewritePattern MinFOp (MaxMinFOpConverter OLT)"
      "binaryOp MinFOp (VectorType [4] (FloatType IEEEsingle))"
      "BlockArgument 0 (VectorType [4] (FloatType IEEEsingle))"
      "BlockArgument 1 (VectorType [4] (FloatType IEEEsingle))"
      "VectorType [4] (FloatType IEEEsingle)" IEEEsingle]
  by (auto simp: binaryOp_def populateArithmeticExpandOpsPatterns_def)

section \<open>The ops of the replacements\<close>

text \<open>
  C7: for every registered pattern and every op of its root kind, the pattern succeeds and
  replaces the op by the op it emits last, and every op it emits is a constant, an add, a
  sub, a signed or unsigned divide, a bitwise and or or, an integer or float compare, a
  select or a broadcast. None of them is one of the nine ops that the pass expands: each is
  legal for the target that the pass sets up, and every registered pattern fails to match
  it and leaves the rewriter as it is, so that running the pass again finds nothing to
  rewrite in them.
\<close>

theorem emitted_ops_legal:
  assumes p: "p \<in> set (populateArithmeticExpandOpsPatterns [])"
    and op: "op = OpResult (getRootKind p) NoAttr [lhs, rhs] t"
    and fl: "getRootKind p \<in> {MaxFOp, MinFOp} \<longrightarrow> getElementTypeOrSelf (getType lhs) = FloatType sem"
    and target: "target =
      addIllegalOp [CeilDivSIOp, CeilDivUIOp, FloorDivSIOp, MaxFOp, MaxSIOp, MaxUIOp,
                    MinFOp, MinSIOp, MinUIOp]
        (addLegalDialect [ArithmeticDialect, StandardOpsDialect] emptyTarget)"
  shows "\<exists>rw v. matchAndRewrite p op emptyRewriter = Some (success, rw)
           \<and> replaced rw = [(op, [v])] \<and> created rw \<noteq> [] \<and> v = last (created rw)
           \<and> (\<forall>e\<in>set (created rw). \<exists>n. getOpName e = Some n
                 \<and> n \<in> {ConstantOp, AddIOp, SubIOp, DivSIOp, DivUIOp, AndIOp, OrIOp, CmpIOp,
                          CmpFOp, SelectOp, SplatOp}
                 \<and> n \<notin> {CeilDivSIOp, CeilDivUIOp, FloorDivSIOp, MaxFOp, MaxSIOp, MaxUIOp,
                          MinFOp, MinSIOp, MinUIOp}
                 \<and> getOpAction target n = Some Legal
                 \<and> (\<forall>q\<in>set (populateArithmeticExpandOpsPatterns []). \<forall>rw'.
                       matchAndRewrite q e rw' = Some (failure, rw')))"
proof -
  from emitted_names [OF p op fl]
  obtain rw v where r: "matchAndRewrite p op emptyRewriter = Some (success, rw)"
    "replaced rw = [(op, [v])]" "created rw \<noteq> []" "v = last (created rw)"
    and e: "\<forall>e\<in>set (created rw). \<exists>n attr ops ty. e = OpResult n attr ops ty
                 \<and> n \<in> {ConstantOp, AddIOp, SubIOp, DivSIOp, DivUIOp, AndIOp, OrIOp, CmpIOp,
                          CmpFOp, SelectOp, SplatOp}"
    by blast
  have "\<exists>n. getOpName e = Some n
          \<and> n \<in> {ConstantOp, AddIOp, SubIOp, DivSIOp, DivUIOp, AndIOp, OrIOp, CmpIOp,
                   CmpFOp, SelectOp, SplatOp}
          \<and> n \<notin> {CeilDivSIOp, CeilDivUIOp, FloorDivSIOp, MaxFOp, MaxSIOp, MaxUIOp,
                   MinFOp, MinSIOp, MinUIOp}
          \<and> getOpAction target n = Some Legal
          \<and> (\<forall>q\<in>set (populateArithmeticExpandOpsPatterns []). \<forall>rw'.
                matchAndRewrite q e rw' = Some (failure, rw'))"
    if "e \<in> set (created rw)" for e
  proof -
    from e that obtain n attr ops ty where eq: "e = OpResult n attr ops ty"
      and n: "n \<in> {ConstantOp, AddIOp, SubIOp, DivSIOp, DivUIOp, AndIOp, OrIOp, CmpIOp,
                    CmpFOp, SelectOp, SplatOp}"
      by blast
    from n have ni: "n \<notin> {CeilDivSIOp, CeilDivUIOp, FloorDivSIOp, MaxFOp, MaxSIOp, MaxUIOp,
                           MinFOp, MinSIOp, MinUIOp}"
      by auto
    have l: "getOpAction target n = Some Legal"
      using ni unfolding target target_action by simp
    have m: "\<forall>q\<in>set (populateArithmeticExpandOpsPatterns []). \<forall>rw'.
                matchAndRewrite q e rw' = Some (failure, rw')"
      unfolding eq using no_pattern_matches [OF ni] by blast
    show ?thesis using n ni l m unfolding eq by simp
  qed
  then show ?thesis using r by blast
qed

text \<open>The signed ceiling division at width 32, and the select it emits last.\<close>

theorem emitted_ops_legal_witness:
  "\<exists>rw v. matchAndRewrite (RewritePattern CeilDivSIOp CeilDivSIOpConverter)
             (binaryOp CeilDivSIOp (IntegerType 32)) emptyRewriter = Some (success, rw)
     \<and> replaced rw = [(binaryOp CeilDivSIOp (IntegerType 32), [v])]
     \<and> v = last (created rw)
     \<and> getOpName v = Some SelectOp
     \<and> getOpAction
          (addIllegalOp [CeilDivSIOp, CeilDivUIOp, FloorDivSIOp, MaxFOp, MaxSIOp, MaxUIOp,
                         MinFOp, MinSIOp, MinUIOp]
             (addLegalDialect [ArithmeticDialect, StandardOpsDialect] emptyTarget)) SelectOp
        = Some Legal
     \<and> matchAndRewrite (RewritePattern CeilDivSIOp CeilDivSIOpConverter) v emptyRewriter =
         Some (failure, emptyRewriter)"
proof -
  from emitted_ops_legal [of "RewritePattern CeilDivSIOp CeilDivSIOpConverter"
      "binaryOp CeilDivSIOp (IntegerType 32)" "BlockArgument 0 (IntegerType 32)"
      "BlockArgument 1 (IntegerType 32)" "IntegerType 32" IEEEsingle, OF _ _ _ refl]
  obtain rw v where r: "matchAndRewrite (RewritePattern CeilDivSIOp CeilDivSIOpConverter)
             (binaryOp CeilDivSIOp (IntegerType 32)) emptyRewriter = Some (success, rw)"
    "replaced rw = [(binaryOp CeilDivSIOp (IntegerType 32), [v])]"
    "created rw \<noteq> []" "v = last (created rw)"
    and e: "\<forall>e\<in>set (created rw). \<exists>n. getOpName e = Some n
           \<and> n \<in> {ConstantOp, AddIOp, SubIOp, DivSIOp, DivUIOp, AndIOp, OrIOp, CmpIOp,
                    CmpFOp, SelectOp, SplatOp}
           \<and> n \<notin> {CeilDivSIOp, CeilDivUIOp, FloorDivSIOp, MaxFOp, MaxSIOp, MaxUIOp,
                    MinFOp, MinSIOp, MinUIOp}
           \<and> getOpAction
                (addIllegalOp [CeilDivSIOp, CeilDivUIOp, FloorDivSIOp, MaxFOp, MaxSIOp, MaxUIOp,
                               MinFOp, MinSIOp, MinUIOp]
                   (addLegalDialect [ArithmeticDialect, StandardOpsDialect] emptyTarget)) n
              = Some Legal
           \<and> (\<forall>q\<in>set (populateArithmeticExpandOpsPatterns []). \<forall>rw'.
                 matchAndRewrite q e rw' = Some (failure, rw'))"
    by (auto simp: binaryOp_def populateArithmeticExpandOpsPatterns_def)
  have v: "v \<in> set (created rw)" using r(3,4) by simp
  have n: "getOpName v = Some SelectOp"
    using r(1,4) by (auto simp: binaryOp_def pattern_defs builder_defs Let_def)
  have p: "RewritePattern CeilDivSIOp CeilDivSIOpConverter \<in> set (populateArithmeticExpandOpsPatterns [])"
    by (simp add: populateArithmeticExpandOpsPatterns_def)
  from e v n p show ?thesis using r by fastforce
qed

text \<open>The op names that each pattern emits, in order.\<close>

lemma emitted_op_names:
  "map getOpName (emitted (CeilDivUIOpConverter op emptyRewriter)) =
     map Some [ConstantOp, CmpIOp, ConstantOp, SubIOp, DivUIOp, AddIOp, SelectOp]"
  "map getOpName (emitted (CeilDivSIOpConverter op emptyRewriter)) =
     map Some [ConstantOp, ConstantOp, ConstantOp, CmpIOp, SelectOp, AddIOp, DivSIOp, AddIOp,
               SubIOp, DivSIOp, SubIOp, CmpIOp, CmpIOp, CmpIOp, CmpIOp, AndIOp, AndIOp, OrIOp,
               SelectOp]"
  "map getOpName (emitted (FloorDivSIOpConverter op emptyRewriter)) =
     map Some [ConstantOp, ConstantOp, ConstantOp, CmpIOp, SelectOp, SubIOp, DivSIOp, SubIOp,
               DivSIOp, CmpIOp, CmpIOp, CmpIOp, CmpIOp, AndIOp, AndIOp, OrIOp, SelectOp]"
  "map getOpName (emitted (MaxMinIOpConverter ipred op emptyRewriter)) =
     map Some [CmpIOp, SelectOp]"
  "getType (getLhs op) = FloatType sem \<Longrightarrow>
   map getOpName (emitted (MaxMinFOpConverter fpred op emptyRewriter)) =
     map Some [CmpFOp, SelectOp, CmpFOp, ConstantOp, SelectOp]"
  "getType (getLhs op) = VectorType shape (FloatType sem) \<Longrightarrow>
   map getOpName (emitted (MaxMinFOpConverter fpred op emptyRewriter)) =
     map Some [CmpFOp, SelectOp, CmpFOp, ConstantOp, SplatOp, SelectOp]"
  by (simp_all add: emitted_def pattern_defs builder_defs Let_def)

section \<open>No multiplication\<close>

text \<open>
  C8: no registered pattern emits a multiplication. The value that the signed ceiling
  division puts in the place of the op is a select on
  \<open>(a < 0 and b < 0) or (a > 0 and b > 0)\<close>, and that of the signed floor division a select
  on \<open>(a < 0 and b > 0) or (a > 0 and b < 0)\<close>: the four signed comparisons of an operand
  with the constant zero, joined by the bitwise and and or.
\<close>

theorem no_multiplication:
  assumes p: "p \<in> set (populateArithmeticExpandOpsPatterns [])"
    and op: "op = OpResult (getRootKind p) NoAttr [a, b] t"
    and fl: "getRootKind p \<in> {MaxFOp, MinFOp} \<longrightarrow> getElementTypeOrSelf (getType a) = FloatType sem"
    and zero: "zero = OpResult ConstantOp (IntegerAttr t 0) [] t"
    and aNeg: "aNeg = OpResult CmpIOp (CmpIPredicateAttr CmpI_slt) [a, zero] (getI1SameShape (getType a))"
    and aPos: "aPos = OpResult CmpIOp (CmpIPredicateAttr CmpI_sgt) [a, zero] (getI1SameShape (getType a))"
    and bNeg: "bNeg = OpResult CmpIOp (CmpIPredicateAttr CmpI_slt) [b, zero] (getI1SameShape (getType b))"
    and bPos: "bPos = OpResult CmpIOp (CmpIPredicateAttr CmpI_sgt) [b, zero] (getI1SameShape (getType b))"
  shows "(\<forall>e\<in>set (emitted (matchAndRewrite p op emptyRewriter)). getOpName e \<noteq> Some MulIOp)
     \<and> (getRootKind p = CeilDivSIOp \<longrightarrow>
          (\<exists>posRes negRes.
             replacement op (matchAndRewrite p op emptyRewriter) =
               Some (OpResult SelectOp NoAttr
                 [OpResult OrIOp NoAttr
                    [OpResult AndIOp NoAttr [aNeg, bNeg] (getType aNeg),
                     OpResult AndIOp NoAttr [aPos, bPos] (getType aPos)] (getType aNeg),
                  posRes, negRes] t)))
     \<and> (getRootKind p = FloorDivSIOp \<longrightarrow>
          (\<exists>negRes posRes.
             replacement op (matchAndRewrite p op emptyRewriter) =
               Some (OpResult SelectOp NoAttr
                 [OpResult OrIOp NoAttr
                    [OpResult AndIOp NoAttr [aNeg, bPos] (getType aNeg),
                     OpResult AndIOp NoAttr [aPos, bNeg] (getType aPos)] (getType aNeg),
                  negRes, posRes] t)))"
  using p
proof (cases rule: pattern_cases)
  case CeilDivSI
  then show ?thesis using op zero aNeg aPos bNeg bPos
    by (simp add: pattern_defs builder_defs Let_def replacement_def emitted_def)
next
  case CeilDivUI
  then show ?thesis using op
    by (simp add: pattern_defs builder_defs Let_def replacement_def emitted_def)
next
  case FloorDivSI
  then show ?thesis using op zero aNeg aPos bNeg bPos
    by (simp add: pattern_defs builder_defs Let_def replacement_def emitted_def)
next
  case (MaxMinF kind pred)
  then have "getElementTypeOrSelf (getType a) = FloatType sem" using fl by simp
  then show ?thesis
  proof (cases rule: float_type_cases)
    case 1
    then show ?thesis using MaxMinF op
      by (auto simp: pattern_defs builder_defs Let_def replacement_def emitted_def)
  next
    case (2 shape)
    then show ?thesis using MaxMinF op
      by (auto simp: pattern_defs builder_defs Let_def replacement_def emitted_def)
  qed
next
  case (MaxMinI kind pred)
  then show ?thesis using op
    by (auto simp: pattern_defs builder_defs Let_def replacement_def emitted_def)
qed

text \<open>The signed floor division at width 32.\<close>

theorem no_multiplication_witness:
  "Some MulIOp \<notin> set (map getOpName (emitted
       (matchAndRewrite (RewritePattern FloorDivSIOp FloorDivSIOpConverter)
          (binaryOp FloorDivSIOp (IntegerType 32)) emptyRewriter)))
   \<and> (\<exists>negRes posRes cond zero.
         replacement (binaryOp FloorDivSIOp (IntegerType 32))
           (matchAndRewrite (RewritePattern FloorDivSIOp FloorDivSIOpConverter)
              (binaryOp FloorDivSIOp (IntegerType 32)) emptyRewriter) =
           Some (OpResult SelectOp NoAttr [cond, negRes, posRes] (IntegerType 32))
       \<and> zero = OpResult ConstantOp (IntegerAttr (IntegerType 32) 0) [] (IntegerType 32)
       \<and> cond = OpResult OrIOp NoAttr
           [OpResult AndIOp NoAttr
              [OpResult CmpIOp (CmpIPredicateAttr CmpI_slt)
                 [BlockArgument 0 (IntegerType 32), zero] (IntegerType 1),
               OpResult CmpIOp (CmpIPredicateAttr CmpI_sgt)
                 [BlockArgument 1 (IntegerType 32), zero] (IntegerType 1)] (IntegerType 1),
            OpResult AndIOp NoAttr
              [OpResult CmpIOp (CmpIPredicateAttr CmpI_sgt)
                 [BlockArgument 0 (IntegerType 32), zero] (IntegerType 1),
               OpResult CmpIOp (CmpIPredicateAttr CmpI_slt)
                 [BlockArgument 1 (IntegerType 32), zero] (IntegerType 1)] (IntegerType 1)]
           (IntegerType 1))"
  using no_multiplication [of "RewritePattern FloorDivSIOp FloorDivSIOpConverter"
      "binaryOp FloorDivSIOp (IntegerType 32)" "BlockArgument 0 (IntegerType 32)"
      "BlockArgument 1 (IntegerType 32)" "IntegerType 32" IEEEsingle, OF _ _ _ refl refl refl refl refl]
  by (auto simp: binaryOp_def populateArithmeticExpandOpsPatterns_def)

section \<open>The run step of the pass\<close>

text \<open>
  C9: the pass that \<open>createArithmeticExpandOpsPass\<close> returns, run on a state that has not
  failed, calls the host's driver with the function, with the target in which the
  arithmetic and standard dialects are legal and exactly the nine expanded ops illegal, and
  with the nine registered patterns. It leaves the function as the driver leaves it and
  signals failure if and only if the driver failed; nothing else of the state changes.
\<close>

theorem runOnFunction_effect:
  assumes target: "target =
      addIllegalOp [CeilDivSIOp, CeilDivUIOp, FloorDivSIOp, MaxFOp, MaxSIOp, MaxUIOp,
                    MinFOp, MinSIOp, MinUIOp]
        (addLegalDialect [ArithmeticDialect, StandardOpsDialect] emptyTarget)"
    and patterns: "patterns = populateArithmeticExpandOpsPatterns []"
    and driver: "applyPartialConversion (theFunction st) target patterns = (res, f)"
    and fresh: "\<not> passFailed st"
  shows "createArithmeticExpandOpsPass applyPartialConversion st =
           st\<lparr>theFunction := f, passFailed := (res = failure)\<rparr>
     \<and> (passFailed (createArithmeticExpandOpsPass applyPartialConversion st) \<longleftrightarrow> res = failure)
     \<and> patterns =
         [RewritePattern CeilDivSIOp CeilDivSIOpConverter,
          RewritePattern CeilDivUIOp CeilDivUIOpConverter,
          RewritePattern FloorDivSIOp FloorDivSIOpConverter,
          RewritePattern MaxFOp (MaxMinFOpConverter OGT),
          RewritePattern MinFOp (MaxMinFOpConverter OLT),
          RewritePattern MaxSIOp (MaxMinIOpConverter CmpI_sgt),
          RewritePattern MaxUIOp (MaxMinIOpConverter CmpI_ugt),
          RewritePattern MinSIOp (MaxMinIOpConverter CmpI_slt),
          RewritePattern MinUIOp (MaxMinIOpConverter CmpI_ult)]
     \<and> (\<forall>d. legalDialects target d = Some Legal)
     \<and> (\<forall>n. legalOperations target n =
              (if n \<in> {CeilDivSIOp, CeilDivUIOp, FloorDivSIOp, MaxFOp, MaxSIOp, MaxUIOp,
                        MinFOp, MinSIOp, MinUIOp} then Some Illegal else None))
     \<and> card {n. getOpAction target n = Some Illegal} = 9"
proof -
  have r: "createArithmeticExpandOpsPass applyPartialConversion st =
           st\<lparr>theFunction := f, passFailed := (res = failure)\<rparr>"
    using driver fresh unfolding target patterns
    by (cases res)
       (simp_all add: createArithmeticExpandOpsPass_def runOnFunction_def Let_def failed_def
          signalPassFailure_def)
  have d: "legalDialects target d = Some Legal" for d
    unfolding target by (cases d) (simp_all add: emptyTarget_def)
  have o: "legalOperations target n =
              (if n \<in> {CeilDivSIOp, CeilDivUIOp, FloorDivSIOp, MaxFOp, MaxSIOp, MaxUIOp,
                        MinFOp, MinSIOp, MinUIOp} then Some Illegal else None)" for n
    unfolding target by (cases n) (simp_all add: emptyTarget_def)
  have "{n. getOpAction target n = Some Illegal} =
          {CeilDivSIOp, CeilDivUIOp, FloorDivSIOp, MaxFOp, MaxSIOp, MaxUIOp,
           MinFOp, MinSIOp, MinUIOp}"
    unfolding target target_action by (auto split: if_splits)
  then have c: "card {n. getOpAction target n = Some Illegal} = 9" by simp
  show ?thesis using r d o c unfolding patterns
    by (simp add: populateArithmeticExpandOpsPatterns_def)
qed


text \<open>A driver that fails and one that succeeds, each after changing the function.\<close>

theorem runOnFunction_effect_witness:
  "createArithmeticExpandOpsPass (\<lambda>f target patterns. (failure, Suc f))
      \<lparr>theFunction = (0::nat), passFailed = False\<rparr> =
     \<lparr>theFunction = 1, passFailed = True\<rparr>
   \<and> createArithmeticExpandOpsPass (\<lambda>f target patterns. (success, Suc f))
      \<lparr>theFunction = (0::nat), passFailed = False\<rparr> =
     \<lparr>theFunction = 1, passFailed = False\<rparr>"
  using runOnFunction_effect [of _ _ "\<lambda>f target patterns. (failure, Suc f)"
      "\<lparr>theFunction = (0::nat), passFailed = False\<rparr>" failure 1, OF refl refl]
    runOnFunction_effect [of _ _ "\<lambda>f target patterns. (success, Suc f)"
      "\<lparr>theFunction = (0::nat), passFailed = False\<rparr>" success 1, OF refl refl]
  by simp

end
